theory Spec2Isabelle
  imports Complex_Main "HOL-Library.Word" "HOL-Library.Sublist"
begin

unbundle bit_operations_syntax

section \<open>Python values\<close>

text \<open>
  A notification payload is a Python \<^verbatim>\<open>bytes\<close> object: a list of 8-bit words.
  Python integers are unbounded, so every integer of the decoders is an \<^typ>\<open>int\<close>;
  \<open>AND\<close> and \<open>drop_bit\<close> on \<^typ>\<open>int\<close> are Python's \<^verbatim>\<open>&\<close> and \<^verbatim>\<open>>>\<close> (two's complement
  with an unbounded sign, rounding towards minus infinity).
\<close>

type_synonym byte = "8 word"

text \<open>
  The exceptions a decoder can be asked about. \<open>IndexError\<close> is what Python raises on
  \<^verbatim>\<open>data[i]\<close> out of range. \<open>BleakError\<close> stands for an exception raised by a call into
  the BLE library. \<open>DecodeError\<close> is the error kind of the specification; no statement
  of \<^verbatim>\<open>bluetooth_service.py\<close> raises it.
\<close>

datatype py_error = IndexError | BleakError | DecodeError

text \<open>
  A Python number is an \<^verbatim>\<open>int\<close> or a \<^verbatim>\<open>float\<close>. Binary floating point is not modelled:
  the type of floats is a parameter \<open>'f\<close>, and the eight float operations the decoders
  use are the fields of \<open>float_ops\<close>. Every theorem below holds for every float arithmetic.
\<close>

datatype 'f pynum = PyInt int | PyFloat 'f

record 'f float_ops =
  pow10_float :: "int \<Rightarrow> 'f"             \<comment> \<open>\<^verbatim>\<open>10 ** e\<close> for an int \<open>e < 0\<close>\<close>
  int_mul_float :: "int \<Rightarrow> 'f \<Rightarrow> 'f"     \<comment> \<open>\<^verbatim>\<open>m * x\<close>, int times float\<close>
  float_mul_int :: "'f \<Rightarrow> int \<Rightarrow> 'f"     \<comment> \<open>\<^verbatim>\<open>x * n\<close>, float times int\<close>
  int_div_int :: "int \<Rightarrow> int \<Rightarrow> 'f"      \<comment> \<open>\<^verbatim>\<open>k / n\<close>, true division of ints\<close>
  float_div_int :: "'f \<Rightarrow> int \<Rightarrow> 'f"     \<comment> \<open>\<^verbatim>\<open>x / n\<close>\<close>
  float_add_int :: "'f \<Rightarrow> int \<Rightarrow> 'f"     \<comment> \<open>\<^verbatim>\<open>x + n\<close>\<close>
  float_round :: "'f \<Rightarrow> int \<Rightarrow> 'f"       \<comment> \<open>\<^verbatim>\<open>round(x, ndigits)\<close>\<close>
  float_trunc :: "'f \<Rightarrow> int"            \<comment> \<open>\<^verbatim>\<open>int(x)\<close>\<close>

text \<open>\<^verbatim>\<open>10 ** e\<close>: an int for \<open>e \<ge> 0\<close>, a float otherwise.\<close>

definition py_pow10 :: "'f float_ops \<Rightarrow> int \<Rightarrow> 'f pynum" where
  "py_pow10 ops e = (if 0 \<le> e then PyInt (10 ^ nat e) else PyFloat (pow10_float ops e))"

text \<open>\<^verbatim>\<open>m * y\<close> for an int \<open>m\<close>.\<close>

definition py_int_mul :: "'f float_ops \<Rightarrow> int \<Rightarrow> 'f pynum \<Rightarrow> 'f pynum" where
  "py_int_mul ops m y = (case y of PyInt n \<Rightarrow> PyInt (m * n) | PyFloat x \<Rightarrow> PyFloat (int_mul_float ops m x))"

text \<open>\<^verbatim>\<open>y * n\<close>, \<^verbatim>\<open>y / n\<close> and \<^verbatim>\<open>y + n\<close> for an int \<open>n\<close>; \<^verbatim>\<open>/\<close> always gives a float.\<close>

definition py_mul_int :: "'f float_ops \<Rightarrow> 'f pynum \<Rightarrow> int \<Rightarrow> 'f pynum" where
  "py_mul_int ops y n = (case y of PyInt k \<Rightarrow> PyInt (k * n) | PyFloat x \<Rightarrow> PyFloat (float_mul_int ops x n))"

definition py_truediv_int :: "'f float_ops \<Rightarrow> 'f pynum \<Rightarrow> int \<Rightarrow> 'f pynum" where
  "py_truediv_int ops y n = (case y of PyInt k \<Rightarrow> PyFloat (int_div_int ops k n) | PyFloat x \<Rightarrow> PyFloat (float_div_int ops x n))"

definition py_add_int :: "'f float_ops \<Rightarrow> 'f pynum \<Rightarrow> int \<Rightarrow> 'f pynum" where
  "py_add_int ops y n = (case y of PyInt k \<Rightarrow> PyInt (k + n) | PyFloat x \<Rightarrow> PyFloat (float_add_int ops x n))"

text \<open>\<^verbatim>\<open>round(y, ndigits)\<close> with \<open>ndigits \<ge> 0\<close>: an int is returned as it is.\<close>

definition py_round :: "'f float_ops \<Rightarrow> 'f pynum \<Rightarrow> int \<Rightarrow> 'f pynum" where
  "py_round ops y ndigits = (case y of PyInt k \<Rightarrow> PyInt k | PyFloat x \<Rightarrow> PyFloat (float_round ops x ndigits))"

text \<open>\<^verbatim>\<open>int(y)\<close>.\<close>

definition py_int :: "'f float_ops \<Rightarrow> 'f pynum \<Rightarrow> int" where
  "py_int ops y = (case y of PyInt k \<Rightarrow> k | PyFloat x \<Rightarrow> float_trunc ops x)"

text \<open>
  The free float arithmetic: a float is the expression that computes it. It is the
  instance at which examples are evaluated; it says which operations Python performs on
  which operands and nothing about their binary64 values. Truncation has no expression
  form and is a constant here; no example below truncates a float.
\<close>

datatype float_expr =
    Pow10 int
  | IntMul int float_expr
  | MulInt float_expr int
  | IntDiv int int
  | DivInt float_expr int
  | AddInt float_expr int
  | Round float_expr int

definition expr_ops :: "float_expr float_ops" where
  "expr_ops = \<lparr> pow10_float = Pow10, int_mul_float = IntMul, float_mul_int = MulInt,
      int_div_int = IntDiv, float_div_int = DivInt, float_add_int = AddInt,
      float_round = Round, float_trunc = (\<lambda>_. 0) \<rparr>"



section \<open>Bytes\<close>

text \<open>\<^verbatim>\<open>data[i]\<close> for a literal index \<open>i \<ge> 0\<close>.\<close>

definition getitem :: "byte list \<Rightarrow> nat \<Rightarrow> py_error + int" where
  "getitem data i = (if i < length data then Inr (uint (data ! i)) else Inl IndexError)"

text \<open>\<^verbatim>\<open>data[i:j]\<close> for literal \<open>0 \<le> i \<le> j\<close>: a slice never raises, it is cut at the end.\<close>

definition py_slice :: "byte list \<Rightarrow> nat \<Rightarrow> nat \<Rightarrow> byte list" where
  "py_slice data i j = take (j - i) (drop i data)"

text \<open>\<^verbatim>\<open>int.from_bytes(bs, byteorder='little')\<close>, and the same with \<^verbatim>\<open>signed=True\<close>.\<close>

fun from_bytes_little :: "byte list \<Rightarrow> int" where
  "from_bytes_little [] = 0"
| "from_bytes_little (b # bs) = uint b + 256 * from_bytes_little bs"

definition from_bytes_little_signed :: "byte list \<Rightarrow> int" where
  "from_bytes_little_signed bs =
     (let n = from_bytes_little bs in
      if bs \<noteq> [] \<and> 2 ^ (8 * length bs - 1) \<le> n then n - 2 ^ (8 * length bs) else n)"

section \<open>Characteristic decoders\<close>

text \<open>\<^verbatim>\<open>_parse_heart_rate\<close>, lines 190 to 199.\<close>

definition parse_heart_rate :: "byte list \<Rightarrow> py_error + int" where
  "parse_heart_rate data =
     (case getitem data 0 of
        Inl e \<Rightarrow> Inl e
      | Inr flags \<Rightarrow>
          if flags AND 1 \<noteq> 0 then Inr (from_bytes_little (py_slice data 1 3))
          else getitem data 1)"

text \<open>\<^verbatim>\<open>_parse_sfloat\<close>, lines 248 to 260.\<close>

definition parse_sfloat :: "'f float_ops \<Rightarrow> byte list \<Rightarrow> 'f pynum" where
  "parse_sfloat ops data =
     (let v = from_bytes_little_signed data;
          mantissa = v AND 4095;
          mantissa = (if mantissa AND 2048 \<noteq> 0 then - (4096 - mantissa) else mantissa);
          exponent = drop_bit 12 v AND 15;
          exponent = (if exponent AND 8 \<noteq> 0 then - (16 - exponent) else exponent)
      in py_int_mul ops mantissa (py_pow10 ops exponent))"

text \<open>\<^verbatim>\<open>_parse_blood_pressure\<close>, lines 231 to 239.\<close>

definition parse_blood_pressure :: "'f float_ops \<Rightarrow> byte list \<Rightarrow> py_error + int \<times> int" where
  "parse_blood_pressure ops data =
     (case getitem data 0 of
        Inl e \<Rightarrow> Inl e
      | Inr flags \<Rightarrow>
          let systolic = parse_sfloat ops (py_slice data 1 3);
              diastolic = parse_sfloat ops (py_slice data 3 5)
          in Inr (py_int ops systolic, py_int ops diastolic))"

text \<open>\<^verbatim>\<open>_parse_oxygen\<close>, lines 241 to 246.\<close>

definition parse_oxygen :: "byte list \<Rightarrow> py_error + int" where
  "parse_oxygen data =
     (case getitem data 0 of
        Inl e \<Rightarrow> Inl e
      | Inr flags \<Rightarrow> if length data > 1 then getitem data 1 else Inr 0)"

text \<open>\<^verbatim>\<open>_parse_temperature\<close>, lines 201 to 229.\<close>

definition parse_temperature :: "'f float_ops \<Rightarrow> byte list \<Rightarrow> py_error + 'f pynum" where
  "parse_temperature ops data =
     (case getitem data 0 of
        Inl e \<Rightarrow> Inl e
      | Inr flags \<Rightarrow>
          let temp_bytes = py_slice data 1 5;
              temp_int = from_bytes_little_signed temp_bytes;
              mantissa = temp_int AND 16777215;
              mantissa = (if mantissa AND 8388608 \<noteq> 0 then - (16777216 - mantissa) else mantissa);
              exponent = drop_bit 24 temp_int;
              exponent = (if exponent AND 128 \<noteq> 0 then - (256 - exponent) else exponent);
              temp_celsius = py_int_mul ops mantissa (py_pow10 ops exponent)
          in if flags AND 1 \<noteq> 0 then Inr (py_round ops temp_celsius 1)
             else let temp_fahrenheit = py_add_int ops (py_truediv_int ops (py_mul_int ops temp_celsius 9) 5) 32
                  in Inr (py_round ops temp_fahrenheit 1))"

section \<open>The monitor\<close>

text \<open>
  \<^verbatim>\<open>health_data\<close> is a dict that handlers mutate in place and of which copies are handed
  to consumers, so objects live in a store: \<open>heap\<close> is the list of the dicts allocated so
  far and a reference is an index into it. A dict maps a key to its value, and the value
  \<open>None\<close> is Python's \<^verbatim>\<open>None\<close>.
\<close>

type_synonym addr = nat
type_synonym 'f dict = "string \<rightharpoonup> 'f pynum option"

text \<open>
  The fields of \<^verbatim>\<open>BluetoothHealthMonitor\<close>. A \<^verbatim>\<open>BleakClient\<close> is named by the address it was
  made for and a callback by a number. \<open>handed_out\<close> is not a field of the class: it
  records, in order, the references that left the monitor (returned by
  \<^verbatim>\<open>get_current_data\<close> or passed to the callback).
\<close>

record 'f monitor =
  client :: "string option"
  device_address :: "string option"
  device_name :: "string option"
  is_connected :: bool
  data_callback :: "nat option"
  health_data :: addr
  heap :: "'f dict list"
  handed_out :: "addr list"

text \<open>\<^verbatim>\<open>__init__\<close>, lines 26 to 39.\<close>

definition init_health_data :: "'f dict" where
  "init_health_data =
     [''heart_rate'' \<mapsto> None, ''temperature'' \<mapsto> None, ''blood_pressure_systolic'' \<mapsto> None,
      ''blood_pressure_diastolic'' \<mapsto> None, ''oxygen_saturation'' \<mapsto> None,
      ''battery_level'' \<mapsto> None]"

definition init :: "'f monitor" where
  "init = \<lparr> client = None, device_address = None, device_name = None, is_connected = False,
             data_callback = None, health_data = 0, heap = [init_health_data],
             handed_out = [] \<rparr>"

text \<open>\<^verbatim>\<open>self.health_data[key] = v\<close> and \<^verbatim>\<open>self.health_data.copy()\<close>.\<close>

definition setitem :: "string \<Rightarrow> 'f pynum option \<Rightarrow> 'f monitor \<Rightarrow> 'f monitor" where
  "setitem key v s =
     s\<lparr>heap := (heap s)[health_data s := (heap s ! health_data s)(key \<mapsto> v)]\<rparr>"

definition dict_copy :: "'f monitor \<Rightarrow> addr \<times> 'f monitor" where
  "dict_copy s = (length (heap s), s\<lparr>heap := heap s @ [heap s ! health_data s]\<rparr>)"

text \<open>
  \<^verbatim>\<open>_notify_data_update\<close>, lines 262 to 265; the callback is consumer code, which keeps
  the reference it is given. \<^verbatim>\<open>set_data_callback\<close> and \<^verbatim>\<open>get_current_data\<close>, lines 267 to
  273.
\<close>

definition notify_data_update :: "'f monitor \<Rightarrow> 'f monitor" where
  "notify_data_update s =
     (case data_callback s of
        None \<Rightarrow> s
      | Some cb \<Rightarrow> (let (r, s') = dict_copy s in s'\<lparr>handed_out := handed_out s' @ [r]\<rparr>))"

definition set_data_callback :: "nat \<Rightarrow> 'f monitor \<Rightarrow> 'f monitor" where
  "set_data_callback cb s = s\<lparr>data_callback := Some cb\<rparr>"

definition get_current_data :: "'f monitor \<Rightarrow> addr \<times> 'f monitor" where
  "get_current_data s = (let (r, s') = dict_copy s in (r, s'\<lparr>handed_out := handed_out s' @ [r]\<rparr>))"

text \<open>
  The notification handlers of lines 126 to 130, 140 to 144, 154 to 159 and 169 to 173:
  the decoder runs first, and an exception of it leaves the handler before any
  assignment. The body of \<^verbatim>\<open>_read_battery\<close>, lines 183 to 185, on the bytes read.
\<close>

definition heart_rate_handler :: "byte list \<Rightarrow> 'f monitor \<Rightarrow> py_error + 'f monitor" where
  "heart_rate_handler data s =
     (case parse_heart_rate data of
        Inl e \<Rightarrow> Inl e
      | Inr heart_rate \<Rightarrow>
          Inr (notify_data_update (setitem ''heart_rate'' (Some (PyInt heart_rate)) s)))"

definition temperature_handler :: "'f float_ops \<Rightarrow> byte list \<Rightarrow> 'f monitor \<Rightarrow> py_error + 'f monitor" where
  "temperature_handler ops data s =
     (case parse_temperature ops data of
        Inl e \<Rightarrow> Inl e
      | Inr temperature \<Rightarrow>
          Inr (notify_data_update (setitem ''temperature'' (Some temperature) s)))"

definition bp_handler :: "'f float_ops \<Rightarrow> byte list \<Rightarrow> 'f monitor \<Rightarrow> py_error + 'f monitor" where
  "bp_handler ops data s =
     (case parse_blood_pressure ops data of
        Inl e \<Rightarrow> Inl e
      | Inr (systolic, diastolic) \<Rightarrow>
          Inr (notify_data_update
                 (setitem ''blood_pressure_diastolic'' (Some (PyInt diastolic))
                    (setitem ''blood_pressure_systolic'' (Some (PyInt systolic)) s))))"

definition oxygen_handler :: "byte list \<Rightarrow> 'f monitor \<Rightarrow> py_error + 'f monitor" where
  "oxygen_handler data s =
     (case parse_oxygen data of
        Inl e \<Rightarrow> Inl e
      | Inr oxygen \<Rightarrow>
          Inr (notify_data_update (setitem ''oxygen_saturation'' (Some (PyInt oxygen)) s)))"

definition read_battery :: "byte list \<Rightarrow> 'f monitor \<Rightarrow> 'f monitor" where
  "read_battery battery_data s =
     setitem ''battery_level'' (Some (PyInt (from_bytes_little battery_data))) s"

text \<open>
  What happens to a monitor, one call at a time. An exception of a handler goes to the
  BLE library that called it; the monitor is as it was before the call.
\<close>

datatype event =
    HeartRate "byte list"
  | Temperature "byte list"
  | BloodPressure "byte list"
  | Oxygen "byte list"
  | Battery "byte list"
  | SetDataCallback nat
  | GetCurrentData

definition handled :: "py_error + 'f monitor \<Rightarrow> 'f monitor \<Rightarrow> 'f monitor" where
  "handled r s = (case r of Inl e \<Rightarrow> s | Inr s' \<Rightarrow> s')"

fun step :: "'f float_ops \<Rightarrow> 'f monitor \<Rightarrow> event \<Rightarrow> 'f monitor" where
  "step ops s (HeartRate data) = handled (heart_rate_handler data s) s"
| "step ops s (Temperature data) = handled (temperature_handler ops data s) s"
| "step ops s (BloodPressure data) = handled (bp_handler ops data s) s"
| "step ops s (Oxygen data) = handled (oxygen_handler data s) s"
| "step ops s (Battery data) = read_battery data s"
| "step ops s (SetDataCallback cb) = set_data_callback cb s"
| "step ops s GetCurrentData = snd (get_current_data s)"

definition run :: "'f float_ops \<Rightarrow> event list \<Rightarrow> 'f monitor \<Rightarrow> 'f monitor" where
  "run ops evs s = foldl (step ops) s evs"

text \<open>
  \<^verbatim>\<open>disconnect\<close>, lines 87 to 92. \<open>adapter_ok\<close> says whether \<^verbatim>\<open>await self.client.disconnect()\<close>
  returns; when it raises, the exception leaves \<^verbatim>\<open>disconnect\<close> and no field has changed.
\<close>

definition disconnect :: "bool \<Rightarrow> 'f monitor \<Rightarrow> py_error + 'f monitor" where
  "disconnect adapter_ok s =
     (if client s \<noteq> None \<and> is_connected s
      then (if adapter_ok then Inr (s\<lparr>is_connected := False\<rparr>) else Inl BleakError)
      else Inr s)"

section \<open>The scanner\<close>

text \<open>
  A discovered \<^verbatim>\<open>BLEDevice\<close>, and the dict \<^verbatim>\<open>scan_devices\<close> builds for it (keys
  \<^verbatim>\<open>'address'\<close>, \<^verbatim>\<open>'name'\<close>, \<^verbatim>\<open>'rssi'\<close>). Names are strings of 8-bit characters and
  \<^verbatim>\<open>str.lower\<close> is modelled on ASCII letters.
\<close>

record ble_device =
  address :: string
  name :: "string option"
  rssi :: int

record scan_entry =
  entry_address :: string
  entry_name :: string
  entry_rssi :: int

definition lower_char :: "char \<Rightarrow> char" where
  "lower_char c =
     (let n = (of_char c :: nat) in if 65 \<le> n \<and> n \<le> 90 then char_of (n + 32) else c)"

definition py_lower :: "string \<Rightarrow> string" where
  "py_lower s = map lower_char s"

definition health_keywords :: "string list" where
  "health_keywords = [''health'', ''heart'', ''fitbit'', ''garmin'', ''polar'', ''watch'', ''band'',
               ''mi'', ''huawei'']"

text \<open>
  The condition of line 49: a name that is \<^verbatim>\<open>None\<close> or empty is false; \<^verbatim>\<open>keyword in s\<close> is
  \<^const>\<open>sublist\<close>. Then the dict of lines 51 to 55 and the loop of lines 46 to 57, on the
  list that \<^verbatim>\<open>BleakScanner.discover\<close> returned.
\<close>

definition is_health_device :: "ble_device \<Rightarrow> bool" where
  "is_health_device device =
     (case name device of
        None \<Rightarrow> False
      | Some n \<Rightarrow> n \<noteq> [] \<and> list_ex (\<lambda>keyword. sublist keyword (py_lower n)) health_keywords)"

definition to_entry :: "ble_device \<Rightarrow> scan_entry" where
  "to_entry device =
     \<lparr> entry_address = address device,
       entry_name = (case name device of None \<Rightarrow> ''Unknown'' | Some n \<Rightarrow> if n \<noteq> [] then n else ''Unknown''),
       entry_rssi = rssi device \<rparr>"

fun scan_loop :: "ble_device list \<Rightarrow> scan_entry list \<Rightarrow> scan_entry list" where
  "scan_loop [] health_devices = health_devices"
| "scan_loop (device # devices) health_devices =
     scan_loop devices
       (if is_health_device device then health_devices @ [to_entry device] else health_devices)"

definition scan_devices :: "ble_device list \<Rightarrow> scan_entry list" where
  "scan_devices devices = scan_loop devices []"

section \<open>The formats as the specification words them\<close>

text \<open>
  IEEE-11073 SFLOAT, from the two payload bytes \<open>b0\<close> (low) and \<open>b1\<close> (high): the low 12
  bits of the 16-bit little-endian value are the mantissa, minus \<open>2^12\<close> when bit 11 is
  set; the high 4 bits are the exponent, minus \<open>2^4\<close> when bit 3 is set.
\<close>

definition sfloat_mantissa :: "byte \<Rightarrow> byte \<Rightarrow> int" where
  "sfloat_mantissa b0 b1 =
     (let bits = (uint b0 + 256 * uint b1) mod 2 ^ 12
      in if 2 ^ 11 \<le> bits then bits - 2 ^ 12 else bits)"

definition sfloat_exponent :: "byte \<Rightarrow> byte \<Rightarrow> int" where
  "sfloat_exponent b0 b1 =
     (let bits = (uint b0 + 256 * uint b1) div 2 ^ 12
      in if 2 ^ 3 \<le> bits then bits - 2 ^ 4 else bits)"

text \<open>
  IEEE-11073 FLOAT, from the four payload bytes \<open>b0\<close> (low) to \<open>b3\<close> (high): the low 24
  bits of the 32-bit little-endian value are the mantissa, minus \<open>2^24\<close> when bit 23 is
  set; the high 8 bits are the exponent, minus \<open>2^8\<close> when bit 7 is set.
\<close>

definition float_mantissa :: "byte \<Rightarrow> byte \<Rightarrow> byte \<Rightarrow> byte \<Rightarrow> int" where
  "float_mantissa b0 b1 b2 b3 =
     (let bits = (uint b0 + 256 * uint b1 + 65536 * uint b2 + 16777216 * uint b3) mod 2 ^ 24
      in if 2 ^ 23 \<le> bits then bits - 2 ^ 24 else bits)"

definition float_exponent :: "byte \<Rightarrow> byte \<Rightarrow> byte \<Rightarrow> byte \<Rightarrow> int" where
  "float_exponent b0 b1 b2 b3 =
     (let bits = (uint b0 + 256 * uint b1 + 65536 * uint b2 + 16777216 * uint b3) div 2 ^ 24
      in if 2 ^ 7 \<le> bits then bits - 2 ^ 8 else bits)"

text \<open>
  The temperature of a flags byte, a mantissa and an exponent: the value
  \<open>mantissa * 10 ^ exponent\<close>, rounded to one decimal as it is when bit 0 of the flags is
  set, and after \<open>x * 9 / 5 + 32\<close> otherwise.
\<close>

definition temperature_reading :: "'f float_ops \<Rightarrow> byte \<Rightarrow> int \<Rightarrow> int \<Rightarrow> 'f pynum" where
  "temperature_reading ops flags m e =
     (let celsius = py_int_mul ops m (py_pow10 ops e)
      in if bit flags 0 then py_round ops celsius 1
         else py_round ops (py_add_int ops (py_truediv_int ops (py_mul_int ops celsius 9) 5) 32) 1)"

section \<open>The store as the specification words it\<close>

text \<open>
  The value a successful decode of one call gives to the field \<open>key\<close>, if there is one:
  a notification of a service gives a value to the fields of that service when its
  decoder returns, and to no field when its decoder raises.
\<close>

fun decoded :: "'f float_ops \<Rightarrow> event \<Rightarrow> string \<Rightarrow> 'f pynum option" where
  "decoded ops (HeartRate data) key =
     (case parse_heart_rate data of
        Inl e \<Rightarrow> None
      | Inr v \<Rightarrow> if key = ''heart_rate'' then Some (PyInt v) else None)"
| "decoded ops (Temperature data) key =
     (case parse_temperature ops data of
        Inl e \<Rightarrow> None
      | Inr v \<Rightarrow> if key = ''temperature'' then Some v else None)"
| "decoded ops (BloodPressure data) key =
     (case parse_blood_pressure ops data of
        Inl e \<Rightarrow> None
      | Inr (systolic, diastolic) \<Rightarrow>
          if key = ''blood_pressure_systolic'' then Some (PyInt systolic)
          else if key = ''blood_pressure_diastolic'' then Some (PyInt diastolic)
          else None)"
| "decoded ops (Oxygen data) key =
     (case parse_oxygen data of
        Inl e \<Rightarrow> None
      | Inr v \<Rightarrow> if key = ''oxygen_saturation'' then Some (PyInt v) else None)"
| "decoded ops (Battery data) key =
     (if key = ''battery_level'' then Some (PyInt (from_bytes_little data)) else None)"
| "decoded ops (SetDataCallback cb) key = None"
| "decoded ops GetCurrentData key = None"

text \<open>
  The value of the most recent successful decode for a field among the calls \<open>evs\<close>;
  \<open>None\<close>, Python's \<^verbatim>\<open>None\<close>, when there was none.
\<close>

definition latest :: "'f float_ops \<Rightarrow> event list \<Rightarrow> string \<Rightarrow> 'f pynum option" where
  "latest ops evs key =
     (let vs = List.map_filter (\<lambda>ev. decoded ops ev key) evs
      in if vs = [] then None else Some (last vs))"

definition health_fields :: "string list" where
  "health_fields = [''heart_rate'', ''temperature'', ''blood_pressure_systolic'',
                    ''blood_pressure_diastolic'', ''oxygen_saturation'', ''battery_level'']"

text \<open>
  The dict \<^verbatim>\<open>self.health_data\<close> refers to, and the well-formedness of a monitor:
  \<^verbatim>\<open>health_data\<close> refers to an allocated dict, and every reference handed out is
  allocated and is not \<^verbatim>\<open>health_data\<close>.
\<close>

definition store :: "'f monitor \<Rightarrow> 'f dict" where
  "store s = heap s ! health_data s"

definition monitor_ok :: "'f monitor \<Rightarrow> bool" where
  "monitor_ok s = (health_data s < length (heap s)
           \<and> list_all (\<lambda>r. r < length (heap s) \<and> r \<noteq> health_data s) (handed_out s))"

text \<open>An example run, and a monitor that is connected to a device.\<close>

definition example_events :: "event list" where
  "example_events = [SetDataCallback 0, HeartRate [0, 100], HeartRate [0], Oxygen [0, 97], GetCurrentData, HeartRate []]"

definition connected :: "float_expr monitor" where
  "connected = init\<lparr>client := Some ''AA:01'', device_address := Some ''AA:01'',
                     device_name := Some ''Mi Band 4'', is_connected := True\<rparr>"

section \<open>The scanner as the specification words it\<close>

text \<open>
  A name contains a keyword case-insensitively when one of its segments is the keyword
  up to case; an advertisement matches when its name is present and contains a keyword
  of the fixed set.
\<close>

definition contains_ci :: "string \<Rightarrow> string \<Rightarrow> bool" where
  "contains_ci n k = (\<exists>pre mid post. n = pre @ mid @ post \<and> py_lower mid = py_lower k)"

definition name_matches :: "ble_device \<Rightarrow> bool" where
  "name_matches device =
     (\<exists>n. name device = Some n \<and> (\<exists>k \<in> set health_keywords. contains_ci n k))"

text \<open>Example advertisements.\<close>

definition mi_band :: ble_device where "mi_band = \<lparr> address = ''AA:01'', name = Some ''Mi Band 4'', rssi = - 60 \<rparr>"
definition unnamed_device :: ble_device where "unnamed_device = \<lparr> address = ''AA:02'', name = None, rssi = - 70 \<rparr>"
definition printer :: ble_device where "printer = \<lparr> address = ''AA:03'', name = Some ''Printer'', rssi = - 50 \<rparr>"
definition polar_h10 :: ble_device where "polar_h10 = \<lparr> address = ''AA:04'', name = Some ''POLAR H10'', rssi = - 80 \<rparr>"

section \<open>Python's bit operations as arithmetic\<close>

lemma and_pow2_minus_1: "(k::int) AND (2 ^ n - 1) = k mod 2 ^ n"
  by (simp flip: mask_eq_exp_minus_1 take_bit_eq_mask add: take_bit_eq_mod)

lemma and_4095: "(k::int) AND 4095 = k mod 4096"
  using and_pow2_minus_1 [of k 12] by simp

lemma and_15: "(k::int) AND 15 = k mod 16"
  using and_pow2_minus_1 [of k 4] by simp

lemma and_16777215: "(k::int) AND 16777215 = k mod 16777216"
  using and_pow2_minus_1 [of k 24] by simp

lemma div_pow2_top:
  fixes k :: int
  assumes "0 \<le> k" "k < 2 * 2 ^ n"
  shows "k div 2 ^ n = (if 2 ^ n \<le> k then 1 else 0)"
proof (cases "(2::int) ^ n \<le> k")
  case True
  have "k div 2 ^ n = 1"
  proof (rule int_div_pos_eq [where r = "k - 2 ^ n"])
    show "k = 2 ^ n * 1 + (k - 2 ^ n)" by simp
    show "0 \<le> k - 2 ^ n" using True by simp
    show "k - 2 ^ n < 2 ^ n" using assms by simp
  qed
  with True show ?thesis by simp
next
  case False
  then show ?thesis using assms by (simp add: div_pos_pos_trivial)
qed

lemma and_pow2_top:
  fixes k :: int
  assumes "0 \<le> k" "k < 2 * 2 ^ n"
  shows "k AND 2 ^ n \<noteq> 0 \<longleftrightarrow> 2 ^ n \<le> k"
  using div_pow2_top [OF assms]
  by (simp add: and_exp_eq_0_iff_not_bit bit_iff_odd_drop_bit drop_bit_eq_div)

lemma and_2048: "0 \<le> k \<Longrightarrow> k < 4096 \<Longrightarrow> (k::int) AND 2048 \<noteq> 0 \<longleftrightarrow> 2048 \<le> k"
  using and_pow2_top [of k 11] by simp

lemma and_8: "0 \<le> k \<Longrightarrow> k < 16 \<Longrightarrow> (k::int) AND 8 \<noteq> 0 \<longleftrightarrow> 8 \<le> k"
  using and_pow2_top [of k 3] by simp

lemma and_8388608: "0 \<le> k \<Longrightarrow> k < 16777216 \<Longrightarrow> (k::int) AND 8388608 \<noteq> 0 \<longleftrightarrow> 8388608 \<le> k"
  using and_pow2_top [of k 23] by simp

lemma and_1_odd: "(k::int) AND 1 \<noteq> 0 \<longleftrightarrow> odd k"
  by (simp add: and_one_eq mod_2_eq_odd)

lemma flag_bit0: "uint (flags::byte) AND 1 \<noteq> 0 \<longleftrightarrow> bit flags 0"
proof -
  have "uint flags AND 1 \<noteq> 0 \<longleftrightarrow> bit (uint flags) 0"
    unfolding and_1_odd by (simp add: bit_0)
  then show ?thesis by (simp add: bit_uint_iff)
qed

lemma uint_byte_bounds: "0 \<le> uint (b::byte) \<and> uint b < 256"
  using uint_lt2p [of b] by simp

section \<open>SFLOAT\<close>

lemma from_bytes_little_signed_2:
  "from_bytes_little_signed [b0, b1] =
     (let raw = uint b0 + 256 * uint b1 in if 32768 \<le> raw then raw - 65536 else raw)"
  by (simp add: from_bytes_little_signed_def Let_def)

lemma raw16_bounds: "0 \<le> uint (b0::byte) + 256 * uint (b1::byte) \<and> uint b0 + 256 * uint b1 < 65536"
  using uint_byte_bounds [of b0] uint_byte_bounds [of b1] by arith

lemma sub_pow2_mod:
  fixes raw :: int
  shows "(raw - 65536) mod 4096 = raw mod 4096"
proof -
  have "(raw + (- 16) * 4096) mod 4096 = raw mod 4096" by (rule mod_mult_self1)
  then show ?thesis by simp
qed

lemma sub_pow2_div:
  fixes raw :: int
  shows "(raw - 65536) div 4096 = raw div 4096 - 16"
proof -
  have "(raw + (- 16) * 4096) div 4096 = - 16 + raw div 4096" by (rule div_mult_self1) simp
  then show ?thesis by simp
qed

lemma signed16_mod:
  fixes raw :: int
  shows "(if 32768 \<le> raw then raw - 65536 else raw) mod 4096 = raw mod 4096"
  by (simp add: sub_pow2_mod)

lemma signed16_div:
  fixes raw :: int
  assumes "0 \<le> raw" "raw < 65536"
  shows "((if 32768 \<le> raw then raw - 65536 else raw) div 4096) mod 16 = raw div 4096"
proof -
  have eb: "0 \<le> raw div 4096" "raw div 4096 < 16" using assms by simp_all
  have "(raw div 4096 + (- 1) * 16) mod 16 = raw div 4096 mod 16" by (rule mod_mult_self1)
  then have "(raw div 4096 - 16) mod 16 = raw div 4096" using eb by simp
  then show ?thesis using eb by (simp add: sub_pow2_div)
qed

lemma sfloat_mantissa_code:
  fixes raw :: int
  assumes "0 \<le> raw" "raw < 65536"
  defines "v \<equiv> (if 32768 \<le> raw then raw - 65536 else raw)"
  shows "(if (v AND 4095) AND 2048 \<noteq> 0 then - (4096 - (v AND 4095)) else v AND 4095) =
         (if 2048 \<le> raw mod 4096 then raw mod 4096 - 4096 else raw mod 4096)"
proof -
  have m: "v AND 4095 = raw mod 4096"
    unfolding and_4095 v_def by (rule signed16_mod)
  have mb: "0 \<le> raw mod 4096" "raw mod 4096 < 4096" by simp_all
  show ?thesis unfolding m and_2048 [OF mb] by simp
qed

lemma sfloat_exponent_code:
  fixes raw :: int
  assumes "0 \<le> raw" "raw < 65536"
  defines "v \<equiv> (if 32768 \<le> raw then raw - 65536 else raw)"
  shows "(if (drop_bit 12 v AND 15) AND 8 \<noteq> 0 then - (16 - (drop_bit 12 v AND 15)) else drop_bit 12 v AND 15) =
         (if 8 \<le> raw div 4096 then raw div 4096 - 16 else raw div 4096)"
proof -
  have e: "drop_bit 12 v AND 15 = raw div 4096"
    unfolding and_15 drop_bit_eq_div v_def using signed16_div [OF assms(1,2)] by simp
  have eb: "0 \<le> raw div 4096" "raw div 4096 < 16" using assms(1,2) by simp_all
  show ?thesis unfolding e and_8 [OF eb] by simp
qed

lemma sfloat_fields:
  "parse_sfloat ops [b0, b1] =
     py_int_mul ops (sfloat_mantissa b0 b1) (py_pow10 ops (sfloat_exponent b0 b1))"
proof -
  define raw where "raw = uint b0 + 256 * uint b1"
  have b: "0 \<le> raw" "raw < 65536" using raw16_bounds [of b0 b1] by (simp_all add: raw_def)
  have v: "from_bytes_little_signed [b0, b1] = (if 32768 \<le> raw then raw - 65536 else raw)"
    unfolding from_bytes_little_signed_2 Let_def raw_def ..
  have m: "sfloat_mantissa b0 b1 = (if 2048 \<le> raw mod 4096 then raw mod 4096 - 4096 else raw mod 4096)"
    unfolding sfloat_mantissa_def Let_def raw_def by simp
  have e: "sfloat_exponent b0 b1 = (if 8 \<le> raw div 4096 then raw div 4096 - 16 else raw div 4096)"
    unfolding sfloat_exponent_def Let_def raw_def by simp
  show ?thesis
    unfolding parse_sfloat_def Let_def v m e
    unfolding sfloat_mantissa_code [OF b] sfloat_exponent_code [OF b] ..
qed

lemma py_int_times_pow10:
  "py_int ops (py_int_mul ops m (py_pow10 ops e)) =
     (if 0 \<le> e then m * 10 ^ nat e else float_trunc ops (int_mul_float ops m (pow10_float ops e)))"
  by (simp add: py_int_def py_int_mul_def py_pow10_def)

lemma sfloat_120: "sfloat_mantissa 120 0 = 120 \<and> sfloat_exponent 120 0 = 0"
  by (simp add: sfloat_mantissa_def sfloat_exponent_def)

lemma sfloat_m80: "sfloat_mantissa 248 31 = - 8 \<and> sfloat_exponent 248 31 = 1"
  by (simp add: sfloat_mantissa_def sfloat_exponent_def)

section \<open>Decoder claims\<close>

text \<open>
  C4. On a heart-rate payload of sufficient length, \<^verbatim>\<open>_parse_heart_rate\<close> returns byte 1
  as an unsigned 8-bit integer when bit 0 of the flags byte is clear (two bytes are
  enough), and bytes 1 and 2 as an unsigned 16-bit little-endian integer when it is set.
  The examples of the specification are the witness: flags \<open>0x00\<close> with \<open>0x64\<close> gives 100,
  flags \<open>0x01\<close> with \<open>0xE8, 0x00\<close> gives 232.
\<close>

theorem parse_heart_rate_spec:
  "parse_heart_rate (flags # b1 # b2 # rest) =
     Inr (if bit flags 0 then uint b1 + 256 * uint b2 else uint b1)
   \<and> (\<not> bit flags 0 \<longrightarrow> parse_heart_rate [flags, b1] = Inr (uint b1))"
  by (simp add: parse_heart_rate_def getitem_def py_slice_def flag_bit0 del: bit_0)

theorem parse_heart_rate_spec_witness:
  "\<not> bit (0 :: byte) 0 \<and> parse_heart_rate [0, 100] = Inr 100
   \<and> parse_heart_rate [1, 232, 0] = Inr 232"
  using parse_heart_rate_spec [of 0 100 0 "[]"] parse_heart_rate_spec [of 1 232 0 "[]"]
  by simp

text \<open>
  C5. On two bytes \<^verbatim>\<open>_parse_sfloat\<close> returns Python's \<^verbatim>\<open>mantissa * (10 ** exponent)\<close> for
  the mantissa and the exponent of the SFLOAT format as the specification words them.
  \<^verbatim>\<open>_parse_blood_pressure\<close> applies it to bytes 1 to 2 and to bytes 3 to 4 of a payload
  of five bytes or more and converts each with \<^verbatim>\<open>int\<close>: for an exponent that is not
  negative the result is the exact integer \<open>mantissa * 10 ^ exponent\<close>, for a negative
  one the truncation of the float product. Mantissa 120 with exponent 0 decodes to 120,
  mantissa -8 with exponent 1 to -80.
\<close>

theorem parse_sfloat_spec:
  "parse_sfloat ops [b0, b1] =
     py_int_mul ops (sfloat_mantissa b0 b1) (py_pow10 ops (sfloat_exponent b0 b1))
   \<and> parse_blood_pressure ops (flags # s0 # s1 # d0 # d1 # rest) =
       Inr (py_int ops (parse_sfloat ops [s0, s1]), py_int ops (parse_sfloat ops [d0, d1]))
   \<and> py_int ops (parse_sfloat ops [b0, b1]) =
       (if 0 \<le> sfloat_exponent b0 b1 then sfloat_mantissa b0 b1 * 10 ^ nat (sfloat_exponent b0 b1)
        else float_trunc ops (int_mul_float ops (sfloat_mantissa b0 b1) (pow10_float ops (sfloat_exponent b0 b1))))"
proof (intro conjI)
  show "parse_sfloat ops [b0, b1] =
     py_int_mul ops (sfloat_mantissa b0 b1) (py_pow10 ops (sfloat_exponent b0 b1))"
    by (rule sfloat_fields)
  show "parse_blood_pressure ops (flags # s0 # s1 # d0 # d1 # rest) =
       Inr (py_int ops (parse_sfloat ops [s0, s1]), py_int ops (parse_sfloat ops [d0, d1]))"
    by (simp add: parse_blood_pressure_def getitem_def py_slice_def Let_def)
  show "py_int ops (parse_sfloat ops [b0, b1]) =
       (if 0 \<le> sfloat_exponent b0 b1 then sfloat_mantissa b0 b1 * 10 ^ nat (sfloat_exponent b0 b1)
        else float_trunc ops (int_mul_float ops (sfloat_mantissa b0 b1) (pow10_float ops (sfloat_exponent b0 b1))))"
    unfolding sfloat_fields by (rule py_int_times_pow10)
qed

theorem parse_sfloat_spec_witness:
  "sfloat_mantissa 120 0 = 120 \<and> sfloat_exponent 120 0 = 0
   \<and> sfloat_mantissa 248 31 = - 8 \<and> sfloat_exponent 248 31 = 1
   \<and> parse_blood_pressure expr_ops [0, 120, 0, 248, 31] = Inr (120, - 80)"
  using parse_sfloat_spec [of expr_ops 120 0 0 120 0 248 31 "[]"]
        parse_sfloat_spec [of expr_ops 248 31 0 120 0 248 31 "[]"]
  by (simp add: sfloat_120 sfloat_m80 py_int_times_pow10)

text \<open>
  C10. On a payload of exactly one byte \<^verbatim>\<open>_parse_oxygen\<close> returns 0 and signals no error,
  the same result as a two-byte payload whose byte 1 is 0; on a payload of two bytes or
  more it returns byte 1, whatever the flags byte is.
\<close>

theorem parse_oxygen_spec:
  "parse_oxygen [flags] = Inr 0
   \<and> parse_oxygen (flags # b1 # rest) = Inr (uint b1)
   \<and> parse_oxygen (flags' # 0 # rest) = parse_oxygen [flags]"
  by (simp add: parse_oxygen_def getitem_def)

theorem parse_oxygen_spec_witness:
  "parse_oxygen [0] = Inr 0 \<and> parse_oxygen [0, 97] = Inr 97 \<and> parse_oxygen [0, 0] = parse_oxygen [0]"
  using parse_oxygen_spec [of 0 97 "[]" 0] by simp

section \<open>Range of SFLOAT\<close>










section \<open>Temperature\<close>

lemma and_128_signed:
  fixes x :: int
  assumes "- 128 \<le> x" "x < 128"
  shows "x AND 128 \<noteq> 0 \<longleftrightarrow> x < 0"
proof -
  have d: "x div 128 = (if x < 0 then - 1 else 0)"
  proof (cases "x < 0")
    case True
    have "x div 128 = - 1"
    proof (rule int_div_pos_eq [where r = "x + 128"])
      show "x = 128 * - 1 + (x + 128)" by simp
      show "0 \<le> x + 128" using assms by simp
      show "x + 128 < 128" using True by simp
    qed
    with True show ?thesis by simp
  next
    case False
    then show ?thesis using assms by (simp add: div_pos_pos_trivial)
  qed
  have "x AND 2 ^ n \<noteq> 0 \<longleftrightarrow> odd (x div 2 ^ n)" for n
    by (simp add: and_exp_eq_0_iff_not_bit bit_iff_odd_drop_bit drop_bit_eq_div)
  from this [of 7] show ?thesis using d by simp
qed

lemma from_bytes_little_signed_4:
  "from_bytes_little_signed [b0, b1, b2, b3] =
     (let raw = uint b0 + 256 * uint b1 + 65536 * uint b2 + 16777216 * uint b3
      in if 2147483648 \<le> raw then raw - 4294967296 else raw)"
  by (simp add: from_bytes_little_signed_def Let_def)

lemma raw32_bounds:
  "0 \<le> uint (b0::byte) + 256 * uint (b1::byte) + 65536 * uint (b2::byte) + 16777216 * uint (b3::byte)
   \<and> uint b0 + 256 * uint b1 + 65536 * uint b2 + 16777216 * uint b3 < 4294967296"
  using uint_byte_bounds [of b0] uint_byte_bounds [of b1] uint_byte_bounds [of b2] uint_byte_bounds [of b3]
  by arith

lemma signed32_mod:
  fixes raw :: int
  shows "(if 2147483648 \<le> raw then raw - 4294967296 else raw) mod 16777216 = raw mod 16777216"
proof -
  have "(raw + (- 256) * 16777216) mod 16777216 = raw mod 16777216" by (rule mod_mult_self1)
  then show ?thesis by simp
qed

lemma signed32_div:
  fixes raw :: int
  assumes "0 \<le> raw" "raw < 4294967296"
  shows "(if 2147483648 \<le> raw then raw - 4294967296 else raw) div 16777216 =
         (if 128 \<le> raw div 16777216 then raw div 16777216 - 256 else raw div 16777216)"
proof -
  have "(raw + (- 256) * 16777216) div 16777216 = - 256 + raw div 16777216"
    by (rule div_mult_self1) simp
  then have s: "(raw - 4294967296) div 16777216 = raw div 16777216 - 256" by simp
  have t: "2147483648 \<le> raw \<longleftrightarrow> 128 \<le> raw div 16777216"
  proof
    assume "2147483648 \<le> raw"
    then have "2147483648 div 16777216 \<le> raw div 16777216" by (rule zdiv_mono1) simp
    then show "128 \<le> raw div 16777216" by simp
  next
    assume h: "128 \<le> raw div 16777216"
    show "2147483648 \<le> raw"
    proof (rule ccontr)
      assume "\<not> 2147483648 \<le> raw"
      then have "raw \<le> 2147483647" by simp
      then have "raw div 16777216 \<le> 2147483647 div 16777216" by (rule zdiv_mono1) simp
      with h show False by simp
    qed
  qed
  show ?thesis unfolding s t by (simp add: s)
qed

lemma float_fields_code:
  fixes raw :: int
  assumes "0 \<le> raw" "raw < 4294967296"
  defines "v \<equiv> (if 2147483648 \<le> raw then raw - 4294967296 else raw)"
  shows "(if (v AND 16777215) AND 8388608 \<noteq> 0 then - (16777216 - (v AND 16777215)) else v AND 16777215) =
         (if 8388608 \<le> raw mod 16777216 then raw mod 16777216 - 16777216 else raw mod 16777216)"
    and "(if drop_bit 24 v AND 128 \<noteq> 0 then - (256 - drop_bit 24 v) else drop_bit 24 v) =
         (let e = (if 128 \<le> raw div 16777216 then raw div 16777216 - 256 else raw div 16777216)
          in if e < 0 then e - 256 else e)"
proof -
  have m: "v AND 16777215 = raw mod 16777216"
    unfolding and_16777215 v_def by (rule signed32_mod)
  have mb: "0 \<le> raw mod 16777216" "raw mod 16777216 < 16777216" by simp_all
  show "(if (v AND 16777215) AND 8388608 \<noteq> 0 then - (16777216 - (v AND 16777215)) else v AND 16777215) =
         (if 8388608 \<le> raw mod 16777216 then raw mod 16777216 - 16777216 else raw mod 16777216)"
    unfolding m and_8388608 [OF mb] by simp
  define h where "h = raw div 16777216"
  have hb: "0 \<le> h" "h < 256" using assms(1,2) by (simp_all add: h_def)
  have e: "drop_bit 24 v = (if 128 \<le> h then h - 256 else h)"
    unfolding drop_bit_eq_div v_def h_def using signed32_div [OF assms(1,2)] by simp
  have eb: "- 128 \<le> (if 128 \<le> h then h - 256 else h)" "(if 128 \<le> h then h - 256 else h) < 128"
    using hb by simp_all
  show "(if drop_bit 24 v AND 128 \<noteq> 0 then - (256 - drop_bit 24 v) else drop_bit 24 v) =
         (let e = (if 128 \<le> raw div 16777216 then raw div 16777216 - 256 else raw div 16777216)
          in if e < 0 then e - 256 else e)"
    unfolding e and_128_signed [OF eb] h_def [symmetric] Let_def by simp
qed

text \<open>
  What \<^verbatim>\<open>_parse_temperature\<close> computes on every payload of five bytes or more: the
  mantissa of the format, and the exponent of the format when that is not negative; a
  negative exponent \<open>e\<close> is replaced by \<open>e - 256\<close>.
\<close>

lemma parse_temperature_code:
  "parse_temperature ops (flags # b0 # b1 # b2 # b3 # rest) =
     Inr (temperature_reading ops flags (float_mantissa b0 b1 b2 b3)
            (let e = float_exponent b0 b1 b2 b3 in if e < 0 then e - 256 else e))"
proof -
  define raw where "raw = uint b0 + 256 * uint b1 + 65536 * uint b2 + 16777216 * uint b3"
  have b: "0 \<le> raw" "raw < 4294967296" using raw32_bounds [of b0 b1 b2 b3] by (simp_all add: raw_def)
  have s: "py_slice (flags # b0 # b1 # b2 # b3 # rest) 1 5 = [b0, b1, b2, b3]"
    by (simp add: py_slice_def)
  have g: "getitem (flags # b0 # b1 # b2 # b3 # rest) 0 = Inr (uint flags)"
    by (simp add: getitem_def)
  have v: "from_bytes_little_signed [b0, b1, b2, b3] = (if 2147483648 \<le> raw then raw - 4294967296 else raw)"
    unfolding from_bytes_little_signed_4 Let_def raw_def ..
  have m: "float_mantissa b0 b1 b2 b3 =
      (if 8388608 \<le> raw mod 16777216 then raw mod 16777216 - 16777216 else raw mod 16777216)"
    unfolding float_mantissa_def Let_def raw_def by simp
  have e: "float_exponent b0 b1 b2 b3 =
      (if 128 \<le> raw div 16777216 then raw div 16777216 - 256 else raw div 16777216)"
    unfolding float_exponent_def Let_def raw_def by simp
  show ?thesis
    unfolding parse_temperature_def temperature_reading_def g sum.case Let_def s v m e
    unfolding float_fields_code [OF b, unfolded Let_def] flag_bit0
    by (cases "bit flags 0") (simp_all only: if_True if_False)
qed

text \<open>
  C1. \<^verbatim>\<open>_parse_temperature\<close> on the payload \<open>00 D4 FE FF FF\<close> of the specification (flags 0,
  mantissa -300, exponent -1): the code takes \<^verbatim>\<open>temp_int >> 24\<close> of the signed value with no
  mask, so the exponent byte \<open>0xFF\<close> is -1 before the sign correction and -257 after it,
  and the reading is computed from \<^verbatim>\<open>-300 * (10 ** -257)\<close>. By \<open>parse_temperature_code\<close> the
  same happens on every payload whose exponent byte has bit 7 set.
\<close>

theorem parse_temperature_negative_exponent:
  "float_mantissa 0xD4 0xFE 0xFF 0xFF = - 300 \<and> float_exponent 0xD4 0xFE 0xFF 0xFF = - 1
   \<and> parse_temperature ops [0x00, 0xD4, 0xFE, 0xFF, 0xFF] = Inr (temperature_reading ops 0 (- 300) (- 257))
   \<and> temperature_reading ops 0 (- 300) (- 257) =
       PyFloat (float_round ops (float_add_int ops (float_div_int ops (float_mul_int ops
         (int_mul_float ops (- 300) (pow10_float ops (- 257))) 9) 5) 32) 1)"
proof -
  have f: "float_mantissa 0xD4 0xFE 0xFF 0xFF = - 300 \<and> float_exponent 0xD4 0xFE 0xFF 0xFF = - 1"
    by (simp add: float_mantissa_def float_exponent_def)
  have t: "temperature_reading ops 0 (- 300) (- 257) =
       PyFloat (float_round ops (float_add_int ops (float_div_int ops (float_mul_int ops
         (int_mul_float ops (- 300) (pow10_float ops (- 257))) 9) 5) 32) 1)"
    by (simp add: temperature_reading_def py_int_mul_def py_pow10_def py_round_def py_add_int_def
        py_truediv_int_def py_mul_int_def)
  show ?thesis
    using parse_temperature_code [of ops 0 "0xD4" "0xFE" "0xFF" "0xFF" "[]"] f t by simp
qed

section \<open>Short payloads\<close>

lemma getitem_not_DecodeError: "getitem data i \<noteq> Inl DecodeError"
  by (simp add: getitem_def)

lemma getitem_0_cases: "getitem data 0 = (case data of [] \<Rightarrow> Inl IndexError | b # _ \<Rightarrow> Inr (uint b))"
  by (simp add: getitem_def split: list.split)

lemma parse_heart_rate_not_DecodeError: "parse_heart_rate data \<noteq> Inl DecodeError"
  by (simp add: parse_heart_rate_def getitem_0_cases getitem_not_DecodeError split: list.split)

lemma parse_oxygen_not_DecodeError: "parse_oxygen data \<noteq> Inl DecodeError"
  by (simp add: parse_oxygen_def getitem_0_cases getitem_not_DecodeError split: list.split)

lemma parse_temperature_Nil: "parse_temperature ops [] = Inl IndexError"
  by (simp add: parse_temperature_def getitem_def)

lemma parse_temperature_Cons: "\<exists>v. parse_temperature ops (flags # rest) = Inr v"
  by (simp add: parse_temperature_def getitem_def Let_def)

lemma parse_temperature_not_DecodeError: "parse_temperature ops data \<noteq> Inl DecodeError"
proof (cases data)
  case Nil
  then show ?thesis by (simp add: parse_temperature_Nil)
next
  case (Cons flags rest)
  then show ?thesis using parse_temperature_Cons [of ops flags rest] by auto
qed

lemma parse_blood_pressure_Nil: "parse_blood_pressure ops [] = Inl IndexError"
  by (simp add: parse_blood_pressure_def getitem_def)

lemma parse_blood_pressure_Cons: "\<exists>p. parse_blood_pressure ops (flags # rest) = Inr p"
  by (simp add: parse_blood_pressure_def getitem_def Let_def)

lemma parse_blood_pressure_not_DecodeError: "parse_blood_pressure ops data \<noteq> Inl DecodeError"
proof (cases data)
  case Nil
  then show ?thesis by (simp add: parse_blood_pressure_Nil)
next
  case (Cons flags rest)
  then show ?thesis using parse_blood_pressure_Cons [of ops flags rest] by auto
qed

lemma parse_sfloat_Nil: "parse_sfloat ops [] = PyInt 0"
  by (simp add: parse_sfloat_def from_bytes_little_signed_def py_int_mul_def py_pow10_def)

lemma parse_blood_pressure_1: "parse_blood_pressure ops [flags] = Inr (0, 0)"
  by (simp add: parse_blood_pressure_def getitem_def py_slice_def parse_sfloat_Nil py_int_def)

lemma parse_heart_rate_short:
  "parse_heart_rate [] = Inl IndexError"
  "\<not> bit flags 0 \<Longrightarrow> parse_heart_rate [flags] = Inl IndexError"
  "bit flags 0 \<Longrightarrow> parse_heart_rate [flags] = Inr 0"
  "bit flags 0 \<Longrightarrow> parse_heart_rate [flags, b1] = Inr (uint b1)"
  by (simp_all add: parse_heart_rate_def getitem_def py_slice_def flag_bit0 del: bit_0)

lemma mod_pow2_signed:
  fixes v :: int
  assumes "- (2 ^ n) \<le> v" "v < 2 ^ n"
  shows "v mod (2 * 2 ^ n) = (if v < 0 then v + 2 * 2 ^ n else v)"
proof (cases "v < 0")
  case True
  have "(v + 2 * 2 ^ n) mod (2 * 2 ^ n) = v mod (2 * 2 ^ n)" by simp
  moreover have "(v + 2 * 2 ^ n) mod (2 * 2 ^ n) = v + 2 * 2 ^ n"
    using assms True by (intro mod_pos_pos_trivial) simp_all
  ultimately show ?thesis using True by simp
next
  case False
  then show ?thesis using assms by (simp add: mod_pos_pos_trivial)
qed

lemma div_pow2_signed:
  fixes v :: int
  assumes "- (2 * 2 ^ n) \<le> v" "v < 2 * 2 ^ n"
  shows "v div (2 * 2 ^ n) = (if v < 0 then - 1 else 0)"
proof (cases "v < 0")
  case True
  have "v div (2 * 2 ^ n) = - 1"
  proof (rule int_div_pos_eq [where r = "v + 2 * 2 ^ n"])
    show "v = 2 * 2 ^ n * - 1 + (v + 2 * 2 ^ n)" by simp
    show "0 \<le> v + 2 * 2 ^ n" using assms by simp
    show "v + 2 * 2 ^ n < 2 * 2 ^ n" using True by simp
  qed
  with True show ?thesis by simp
next
  case False
  then show ?thesis using assms by (simp add: div_pos_pos_trivial)
qed

lemma float_fields_short:
  fixes v :: int
  assumes "- 8388608 \<le> v" "v < 8388608"
  shows "(if (v AND 16777215) AND 8388608 \<noteq> 0 then - (16777216 - (v AND 16777215)) else v AND 16777215) = v"
    and "(if drop_bit 24 v AND 128 \<noteq> 0 then - (256 - drop_bit 24 v) else drop_bit 24 v) =
         (if v < 0 then - 257 else 0)"
proof -
  have m: "v AND 16777215 = (if v < 0 then v + 16777216 else v)"
    unfolding and_16777215 using mod_pow2_signed [of 23 v] assms by simp
  have mb: "0 \<le> (if v < 0 then v + 16777216 else v)" "(if v < 0 then v + 16777216 else v) < 16777216"
    using assms by simp_all
  show "(if (v AND 16777215) AND 8388608 \<noteq> 0 then - (16777216 - (v AND 16777215)) else v AND 16777215) = v"
    unfolding m and_8388608 [OF mb] using assms by simp
  have e: "drop_bit 24 v = (if v < 0 then - 1 else 0)"
    unfolding drop_bit_eq_div using div_pow2_signed [of 23 v] assms by simp
  have eb: "- 128 \<le> (if v < 0 then - 1 else 0 :: int)" "(if v < 0 then - 1 else 0 :: int) < 128"
    by simp_all
  show "(if drop_bit 24 v AND 128 \<noteq> 0 then - (256 - drop_bit 24 v) else drop_bit 24 v) =
         (if v < 0 then - 257 else 0)"
    unfolding e and_128_signed [OF eb] by simp
qed

lemma sfloat_fields_short:
  fixes v :: int
  assumes "- 128 \<le> v" "v < 128"
  shows "(if (v AND 4095) AND 2048 \<noteq> 0 then - (4096 - (v AND 4095)) else v AND 4095) = v"
    and "(if (drop_bit 12 v AND 15) AND 8 \<noteq> 0 then - (16 - (drop_bit 12 v AND 15)) else drop_bit 12 v AND 15) =
         (if v < 0 then - 1 else 0)"
proof -
  have m: "v AND 4095 = (if v < 0 then v + 4096 else v)"
    unfolding and_4095 using mod_pow2_signed [of 11 v] assms by simp
  have mb: "0 \<le> (if v < 0 then v + 4096 else v)" "(if v < 0 then v + 4096 else v) < 4096"
    using assms by simp_all
  show "(if (v AND 4095) AND 2048 \<noteq> 0 then - (4096 - (v AND 4095)) else v AND 4095) = v"
    unfolding m and_2048 [OF mb] using assms by simp
  have d: "drop_bit 12 v = (if v < 0 then - 1 else 0)"
    unfolding drop_bit_eq_div using div_pow2_signed [of 11 v] assms by simp
  have e: "drop_bit 12 v AND 15 = (if v < 0 then 15 else 0)"
    unfolding d and_15 by simp
  have eb: "0 \<le> (if v < 0 then 15 else 0 :: int)" "(if v < 0 then 15 else 0 :: int) < 16"
    by simp_all
  show "(if (drop_bit 12 v AND 15) AND 8 \<noteq> 0 then - (16 - (drop_bit 12 v AND 15)) else drop_bit 12 v AND 15) =
         (if v < 0 then - 1 else 0)"
    unfolding e and_8 [OF eb] by simp
qed

lemma from_bytes_little_signed_short:
  "from_bytes_little_signed [] = 0"
  "from_bytes_little_signed [a] = (if 128 \<le> uint a then uint a - 256 else uint a)"
  "from_bytes_little_signed [a, b] =
     (if 32768 \<le> uint a + 256 * uint b then uint a + 256 * uint b - 65536 else uint a + 256 * uint b)"
  "from_bytes_little_signed [a, b, c] =
     (if 8388608 \<le> uint a + 256 * uint b + 65536 * uint c
      then uint a + 256 * uint b + 65536 * uint c - 16777216 else uint a + 256 * uint b + 65536 * uint c)"
  by (simp_all add: from_bytes_little_signed_def Let_def)

lemma signed_bounds_1:
  fixes x :: int
  assumes "0 \<le> x" "x < 256"
  shows "- 8388608 \<le> (if 128 \<le> x then x - 256 else x) \<and> (if 128 \<le> x then x - 256 else x) < 8388608"
    and "- 128 \<le> (if 128 \<le> x then x - 256 else x) \<and> (if 128 \<le> x then x - 256 else x) < 128"
  using assms by simp_all

lemma signed_bounds_2:
  fixes x y :: int
  assumes "0 \<le> x" "x < 256" "0 \<le> y" "y < 256"
  shows "- 8388608 \<le> (if 32768 \<le> x + 256 * y then x + 256 * y - 65536 else x + 256 * y)
       \<and> (if 32768 \<le> x + 256 * y then x + 256 * y - 65536 else x + 256 * y) < 8388608"
  using assms by simp

lemma signed_bounds_3:
  fixes x y z :: int
  assumes "0 \<le> x" "x < 256" "0 \<le> y" "y < 256" "0 \<le> z" "z < 256"
  shows "- 8388608 \<le> (if 8388608 \<le> x + 256 * y + 65536 * z then x + 256 * y + 65536 * z - 16777216 else x + 256 * y + 65536 * z)
       \<and> (if 8388608 \<le> x + 256 * y + 65536 * z then x + 256 * y + 65536 * z - 16777216 else x + 256 * y + 65536 * z) < 8388608"
  using assms by simp

lemma short_list_cases:
  assumes "length bs \<le> 3"
  obtains "bs = []" | a where "bs = [a]" | a b where "bs = [a, b]" | a b c where "bs = [a, b, c]"
proof (cases bs)
  case Nil
  then show ?thesis using that(1) by simp
next
  case (Cons a r1)
  show ?thesis
  proof (cases r1)
    case Nil
    with Cons show ?thesis using that(2) by simp
  next
    case (Cons b r2)
    note c2 = this
    show ?thesis
    proof (cases r2)
      case Nil
      with \<open>bs = a # r1\<close> c2 show ?thesis using that(3) by simp
    next
      case (Cons c r3)
      with \<open>bs = a # r1\<close> c2 assms have "bs = [a, b, c]" by simp
      then show ?thesis using that(4) by simp
    qed
  qed
qed

lemma from_bytes_little_signed_bounds3:
  assumes "length bs \<le> 3"
  shows "- 8388608 \<le> from_bytes_little_signed bs \<and> from_bytes_little_signed bs < 8388608"
  using assms
proof (cases bs rule: short_list_cases)
  case 1
  then show ?thesis by (simp add: from_bytes_little_signed_short)
next
  case (2 a)
  show ?thesis unfolding 2 from_bytes_little_signed_short
    using uint_byte_bounds [of a] by (intro signed_bounds_1) simp_all
next
  case (3 a b)
  show ?thesis unfolding 3 from_bytes_little_signed_short
    using uint_byte_bounds [of a] uint_byte_bounds [of b] by (intro signed_bounds_2) simp_all
next
  case (4 a b c)
  show ?thesis unfolding 4 from_bytes_little_signed_short
    using uint_byte_bounds [of a] uint_byte_bounds [of b] uint_byte_bounds [of c]
    by (intro signed_bounds_3) simp_all
qed

lemma from_bytes_little_signed_bounds1:
  assumes "length bs \<le> 1"
  shows "- 128 \<le> from_bytes_little_signed bs \<and> from_bytes_little_signed bs < 128"
proof (cases bs)
  case Nil
  then show ?thesis by (simp add: from_bytes_little_signed_short)
next
  case (Cons a r)
  with assms have b: "bs = [a]" by simp
  show ?thesis unfolding b from_bytes_little_signed_short
    using uint_byte_bounds [of a] by (intro signed_bounds_1) simp_all
qed

lemma parse_temperature_short:
  assumes "length rest \<le> 3"
  shows "parse_temperature ops (flags # rest) =
     Inr (temperature_reading ops flags (from_bytes_little_signed rest)
            (if from_bytes_little_signed rest < 0 then - 257 else 0))"
proof -
  define v where "v = from_bytes_little_signed rest"
  have b: "- 8388608 \<le> v" "v < 8388608"
    using from_bytes_little_signed_bounds3 [OF assms] by (simp_all add: v_def)
  have s: "py_slice (flags # rest) 1 5 = rest" using assms by (simp add: py_slice_def)
  have g: "getitem (flags # rest) 0 = Inr (uint flags)" by (simp add: getitem_def)
  show ?thesis
    unfolding parse_temperature_def temperature_reading_def g sum.case Let_def s v_def [symmetric]
    unfolding float_fields_short [OF b] flag_bit0
    by (cases "bit flags 0") (simp_all only: if_True if_False)
qed

lemma parse_sfloat_short:
  assumes "length bs \<le> 1"
  shows "parse_sfloat ops bs =
     py_int_mul ops (from_bytes_little_signed bs)
       (py_pow10 ops (if from_bytes_little_signed bs < 0 then - 1 else 0))"
proof -
  define v where "v = from_bytes_little_signed bs"
  have b: "- 128 \<le> v" "v < 128"
    using from_bytes_little_signed_bounds1 [OF assms] by (simp_all add: v_def)
  show ?thesis
    unfolding parse_sfloat_def Let_def v_def [symmetric]
    unfolding sfloat_fields_short [OF b] ..
qed

lemma parse_blood_pressure_slices:
  "parse_blood_pressure ops (flags # rest) =
     Inr (py_int ops (parse_sfloat ops (take 2 rest)), py_int ops (parse_sfloat ops (take 2 (drop 2 rest))))"
  by (simp add: parse_blood_pressure_def getitem_def py_slice_def Let_def drop_Suc)

lemma shift_mod_256:
  fixes x :: int
  assumes "0 \<le> x" "x < 256"
  shows "(x + 128) mod 256 - 128 = (if 128 \<le> x then x - 256 else x)"
proof (cases "128 \<le> x")
  case True
  have "(x - 128 + 256) mod 256 = (x - 128) mod 256" by (rule mod_add_self2)
  moreover have "(x - 128) mod 256 = x - 128"
    using True assms by (intro mod_pos_pos_trivial) simp_all
  moreover have "x - 128 + 256 = x + 128" by simp
  ultimately have "(x + 128) mod 256 = x - 128" by (simp only:)
  with True show ?thesis by simp
next
  case False
  then have "(x + 128) mod 256 = x + 128"
    using assms by (intro mod_pos_pos_trivial) simp_all
  with False show ?thesis by simp
qed

lemma sint_byte: "from_bytes_little_signed [a] = sint (a::byte)"
proof -
  have "sint a = (uint a + 128) mod 256 - 128"
    by (simp add: sint_uint signed_take_bit_eq_take_bit_shift take_bit_eq_mod)
  also have "\<dots> = (if 128 \<le> uint a then uint a - 256 else uint a)"
    using uint_byte_bounds [of a] by (intro shift_mod_256) simp_all
  finally show ?thesis by (simp add: from_bytes_little_signed_short)
qed

text \<open>
  C2, amended. No decoder ever fails with \<open>DecodeError\<close>. The empty payload makes each of
  the four decoders raise \<open>IndexError\<close>, and so does a one-byte heart-rate payload with
  flags bit 0 clear. Every other short payload is decoded and a value is returned. Heart
  rate with flags bit 0 set gives the little-endian value of the bytes present after the
  flags (0 when there is none). Temperature reads the at most three bytes present after
  the flags as a signed little-endian integer \<open>v\<close> of that length (0 when there is none)
  and gives the reading of mantissa \<open>v\<close> with exponent 0 when \<open>v \<ge> 0\<close> and -257 when
  \<open>v < 0\<close>. Blood pressure reads a missing SFLOAT as 0, a one-byte SFLOAT as the signed
  byte \<open>v\<close> with exponent 0 when \<open>v \<ge> 0\<close> and -1 when \<open>v < 0\<close>, and a complete one as
  usual. A one-byte oxygen payload gives 0.
\<close>

theorem short_payload_behaviour:
  "parse_heart_rate [] = Inl IndexError \<and> parse_temperature ops [] = Inl IndexError
   \<and> parse_blood_pressure ops [] = Inl IndexError \<and> parse_oxygen [] = Inl IndexError
   \<and> (\<not> bit flags 0 \<longrightarrow> parse_heart_rate [flags] = Inl IndexError)
   \<and> (bit flags 0 \<longrightarrow> parse_heart_rate [flags] = Inr 0 \<and> parse_heart_rate [flags, b1] = Inr (uint b1))
   \<and> (\<exists>v. parse_temperature ops (flags # rest) = Inr v)
   \<and> (\<exists>p. parse_blood_pressure ops (flags # rest) = Inr p)
   \<and> (length rest \<le> 3 \<longrightarrow>
        parse_temperature ops (flags # rest) =
          Inr (temperature_reading ops flags (from_bytes_little_signed rest)
                 (if from_bytes_little_signed rest < 0 then - 257 else 0)))
   \<and> parse_blood_pressure ops [flags] = Inr (0, 0)
   \<and> parse_blood_pressure ops [flags, a] =
       Inr (py_int ops (py_int_mul ops (sint a) (py_pow10 ops (if sint a < 0 then - 1 else 0))), 0)
   \<and> parse_blood_pressure ops [flags, a, b] =
       Inr (py_int ops (py_int_mul ops (sfloat_mantissa a b) (py_pow10 ops (sfloat_exponent a b))), 0)
   \<and> parse_blood_pressure ops [flags, a, b, c] =
       Inr (py_int ops (py_int_mul ops (sfloat_mantissa a b) (py_pow10 ops (sfloat_exponent a b))),
            py_int ops (py_int_mul ops (sint c) (py_pow10 ops (if sint c < 0 then - 1 else 0))))
   \<and> parse_oxygen [flags] = Inr 0
   \<and> parse_heart_rate data \<noteq> Inl DecodeError \<and> parse_temperature ops data \<noteq> Inl DecodeError
   \<and> parse_blood_pressure ops data \<noteq> Inl DecodeError \<and> parse_oxygen data \<noteq> Inl DecodeError"
proof -
  have o: "parse_oxygen [] = Inl IndexError" "parse_oxygen [flags] = Inr 0"
    by (simp_all add: parse_oxygen_def getitem_def)
  have one: "parse_sfloat ops [x] = py_int_mul ops (sint x) (py_pow10 ops (if sint x < 0 then - 1 else 0))" for x
    using parse_sfloat_short [of "[x]" ops] by (simp add: sint_byte)
  have two: "parse_blood_pressure ops [flags, a] =
       Inr (py_int ops (py_int_mul ops (sint a) (py_pow10 ops (if sint a < 0 then - 1 else 0))), 0)"
    unfolding parse_blood_pressure_slices by (simp add: one parse_sfloat_Nil py_int_def)
  have three: "parse_blood_pressure ops [flags, a, b] =
       Inr (py_int ops (py_int_mul ops (sfloat_mantissa a b) (py_pow10 ops (sfloat_exponent a b))), 0)"
    unfolding parse_blood_pressure_slices by (simp add: sfloat_fields parse_sfloat_Nil py_int_def)
  have four: "parse_blood_pressure ops [flags, a, b, c] =
       Inr (py_int ops (py_int_mul ops (sfloat_mantissa a b) (py_pow10 ops (sfloat_exponent a b))),
            py_int ops (py_int_mul ops (sint c) (py_pow10 ops (if sint c < 0 then - 1 else 0))))"
    unfolding parse_blood_pressure_slices by (simp add: sfloat_fields one)
  have t: "length rest \<le> 3 \<longrightarrow>
        parse_temperature ops (flags # rest) =
          Inr (temperature_reading ops flags (from_bytes_little_signed rest)
                 (if from_bytes_little_signed rest < 0 then - 257 else 0))"
    using parse_temperature_short [of rest ops flags] by blast
  show ?thesis
    using parse_heart_rate_short parse_temperature_Nil [of ops]
      parse_blood_pressure_Nil [of ops] o parse_temperature_Cons [of ops flags rest]
      parse_blood_pressure_Cons [of ops flags rest] parse_blood_pressure_1 [of ops flags]
      parse_heart_rate_not_DecodeError [of data] parse_temperature_not_DecodeError [of ops data]
      parse_blood_pressure_not_DecodeError [of ops data] parse_oxygen_not_DecodeError [of data]
      two three four t
    by blast
qed

lemma example_short_temperature:
  "from_bytes_little_signed [255] = - 1"
  "temperature_reading expr_ops 1 (- 1) (- 257) = PyFloat (Round (IntMul (- 1) (Pow10 (- 257))) 1)"
  "temperature_reading expr_ops 0 0 0 = PyFloat (Round (AddInt (IntDiv 0 5) 32) 1)"
  "sint (200 :: byte) = - 56"
  by (simp_all add: from_bytes_little_signed_short temperature_reading_def py_int_mul_def py_pow10_def
      py_round_def py_add_int_def py_truediv_int_def py_mul_int_def expr_ops_def)

theorem short_payload_behaviour_witness:
  "\<not> bit (0::byte) 0 \<and> parse_heart_rate [0] = Inl IndexError
   \<and> bit (1::byte) 0 \<and> parse_heart_rate [1] = Inr 0 \<and> parse_heart_rate [1, 100] = Inr 100
   \<and> parse_blood_pressure expr_ops [0] = Inr (0, 0) \<and> parse_oxygen [0] = Inr 0
   \<and> length [255 :: byte] \<le> 3
   \<and> parse_temperature expr_ops [1, 255] = Inr (PyFloat (Round (IntMul (- 1) (Pow10 (- 257))) 1))
   \<and> parse_temperature expr_ops [0] = Inr (PyFloat (Round (AddInt (IntDiv 0 5) 32) 1))
   \<and> parse_blood_pressure expr_ops [0, 100] = Inr (100, 0)
   \<and> parse_blood_pressure expr_ops [1, 120, 0, 100] = Inr (120, 100)"
  using short_payload_behaviour [of expr_ops 0 100 "[]" 100 0 100 "[]"]
        short_payload_behaviour [of expr_ops 1 100 "[255]" 120 0 100 "[]"]
  by (simp add: example_short_temperature from_bytes_little_signed_short sfloat_120 py_int_times_pow10)

text \<open>
  The claim fails at the one-byte payload \<open>00\<close>: the oxygen decoder returns 0, and the
  heart-rate decoder raises \<open>IndexError\<close>.
\<close>

theorem short_payload_counterexample:
  "length [0::byte] < 2 \<and> parse_oxygen [0] = Inr 0 \<and> parse_oxygen [0] \<noteq> Inl DecodeError
   \<and> parse_heart_rate [0] = Inl IndexError \<and> parse_heart_rate [0] \<noteq> Inl DecodeError"
  by (simp add: parse_oxygen_def parse_heart_rate_def getitem_def)

section \<open>The vitals store\<close>

lemma monitor_ok_init: "monitor_ok init"
  by (simp add: monitor_ok_def init_def)

lemma setitem_props:
  assumes "monitor_ok s"
  shows "monitor_ok (setitem key v s)"
    and "health_data (setitem key v s) = health_data s"
    and "length (heap (setitem key v s)) = length (heap s)"
    and "handed_out (setitem key v s) = handed_out s"
    and "data_callback (setitem key v s) = data_callback s"
    and "store (setitem key v s) = (store s)(key \<mapsto> v)"
    and "r \<noteq> health_data s \<Longrightarrow> heap (setitem key v s) ! r = heap s ! r"
  using assms by (simp_all add: monitor_ok_def setitem_def store_def)

lemma notify_props:
  assumes "monitor_ok s"
  shows "monitor_ok (notify_data_update s)"
    and "health_data (notify_data_update s) = health_data s"
    and "length (heap s) \<le> length (heap (notify_data_update s))"
    and "store (notify_data_update s) = store s"
    and "r < length (heap s) \<Longrightarrow> heap (notify_data_update s) ! r = heap s ! r"
    and "set (handed_out s) \<subseteq> set (handed_out (notify_data_update s))"
  using assms
  by (auto simp: monitor_ok_def notify_data_update_def dict_copy_def store_def nth_append list_all_iff
      split: option.splits)

lemma get_current_data_props:
  assumes "monitor_ok s"
  shows "monitor_ok (snd (get_current_data s))"
    and "health_data (snd (get_current_data s)) = health_data s"
    and "length (heap s) \<le> length (heap (snd (get_current_data s)))"
    and "store (snd (get_current_data s)) = store s"
    and "r < length (heap s) \<Longrightarrow> heap (snd (get_current_data s)) ! r = heap s ! r"
    and "set (handed_out s) \<subseteq> set (handed_out (snd (get_current_data s)))"
    and "fst (get_current_data s) \<in> set (handed_out (snd (get_current_data s)))"
    and "heap (snd (get_current_data s)) ! fst (get_current_data s) = store s"
    and "fst (get_current_data s) \<noteq> health_data s"
  using assms
  by (auto simp: monitor_ok_def get_current_data_def dict_copy_def store_def nth_append list_all_iff)

lemma update_props:
  fixes s :: "'f monitor" and key v
  assumes "monitor_ok s"
  defines "s' \<equiv> notify_data_update (setitem key v s)"
  shows "monitor_ok s'"
    and "health_data s' = health_data s"
    and "length (heap s) \<le> length (heap s')"
    and "store s' = (store s)(key \<mapsto> v)"
    and "r < length (heap s) \<Longrightarrow> r \<noteq> health_data s \<Longrightarrow> heap s' ! r = heap s ! r"
    and "set (handed_out s) \<subseteq> set (handed_out s')"
proof -
  let ?t = "setitem key v s"
  have t: "monitor_ok ?t" using assms(1) by (rule setitem_props)
  show "monitor_ok s'" unfolding s'_def using t by (rule notify_props)
  show "health_data s' = health_data s"
    unfolding s'_def by (simp add: notify_props(2) [OF t] setitem_props(2) [OF assms(1)])
  show "length (heap s) \<le> length (heap s')"
    unfolding s'_def using notify_props(3) [OF t] by (simp add: setitem_props(3) [OF assms(1)])
  show "store s' = (store s)(key \<mapsto> v)"
    unfolding s'_def by (simp add: notify_props(4) [OF t] setitem_props(6) [OF assms(1)])
  show "heap s' ! r = heap s ! r" if "r < length (heap s)" "r \<noteq> health_data s"
    unfolding s'_def using that
    by (simp add: notify_props(5) [OF t] setitem_props(3,7) [OF assms(1)])
  show "set (handed_out s) \<subseteq> set (handed_out s')"
    unfolding s'_def using notify_props(6) [OF t] by (simp add: setitem_props(4) [OF assms(1)])
qed

lemma update2_props:
  fixes s :: "'f monitor" and k1 v1 k2 v2
  assumes "monitor_ok s"
  defines "s' \<equiv> notify_data_update (setitem k2 v2 (setitem k1 v1 s))"
  shows "monitor_ok s'"
    and "health_data s' = health_data s"
    and "length (heap s) \<le> length (heap s')"
    and "store s' = (store s)(k1 \<mapsto> v1, k2 \<mapsto> v2)"
    and "r < length (heap s) \<Longrightarrow> r \<noteq> health_data s \<Longrightarrow> heap s' ! r = heap s ! r"
    and "set (handed_out s) \<subseteq> set (handed_out s')"
proof -
  let ?t = "setitem k1 v1 s"
  have t: "monitor_ok ?t" using assms(1) by (rule setitem_props)
  note u = update_props [OF t, where key = k2 and v = v2]
  show "monitor_ok s'" unfolding s'_def by (rule u)
  show "health_data s' = health_data s"
    unfolding s'_def by (simp add: u(2) setitem_props(2) [OF assms(1)])
  show "length (heap s) \<le> length (heap s')"
    unfolding s'_def using u(3) by (simp add: setitem_props(3) [OF assms(1)])
  show "store s' = (store s)(k1 \<mapsto> v1, k2 \<mapsto> v2)"
    unfolding s'_def by (simp add: u(4) setitem_props(6) [OF assms(1)])
  show "heap s' ! r = heap s ! r" if "r < length (heap s)" "r \<noteq> health_data s"
    unfolding s'_def using that
    by (simp add: u(5) setitem_props(2,3,7) [OF assms(1)])
  show "set (handed_out s) \<subseteq> set (handed_out s')"
    unfolding s'_def using u(6) by (simp add: setitem_props(4) [OF assms(1)])
qed

lemma step_props:
  assumes "monitor_ok s"
  shows "monitor_ok (step ops s ev)"
    and "health_data (step ops s ev) = health_data s"
    and "length (heap s) \<le> length (heap (step ops s ev))"
    and "store (step ops s ev) key =
           (case decoded ops ev key of None \<Rightarrow> store s key | Some v \<Rightarrow> Some (Some v))"
    and "r < length (heap s) \<Longrightarrow> r \<noteq> health_data s \<Longrightarrow> heap (step ops s ev) ! r = heap s ! r"
    and "set (handed_out s) \<subseteq> set (handed_out (step ops s ev))"
proof -
  note u = update_props [OF assms] and u2 = update2_props [OF assms]
    and g = get_current_data_props [OF assms] and b = setitem_props [OF assms]
  show "monitor_ok (step ops s ev)"
    by (cases ev)
      (simp_all add: handled_def heart_rate_handler_def temperature_handler_def bp_handler_def
        oxygen_handler_def read_battery_def set_data_callback_def u u2 g b assms
        split: sum.splits prod.splits, simp add: monitor_ok_def assms [unfolded monitor_ok_def])
  show "health_data (step ops s ev) = health_data s"
    by (cases ev)
      (simp_all add: handled_def heart_rate_handler_def temperature_handler_def bp_handler_def
        oxygen_handler_def read_battery_def set_data_callback_def u u2 g b
        split: sum.splits prod.splits)
  show "length (heap s) \<le> length (heap (step ops s ev))"
    by (cases ev)
      (simp_all add: handled_def heart_rate_handler_def temperature_handler_def bp_handler_def
        oxygen_handler_def read_battery_def set_data_callback_def u u2 g b
        split: sum.splits prod.splits)
  show "store (step ops s ev) key =
           (case decoded ops ev key of None \<Rightarrow> store s key | Some v \<Rightarrow> Some (Some v))"
    by (cases ev)
      (simp_all add: handled_def heart_rate_handler_def temperature_handler_def bp_handler_def
        oxygen_handler_def read_battery_def set_data_callback_def u u2 g b store_def [of "s\<lparr>data_callback := _\<rparr>"]
        store_def [of s, symmetric]
        split: sum.splits prod.splits)
  show "heap (step ops s ev) ! r = heap s ! r" if "r < length (heap s)" "r \<noteq> health_data s"
    using that
    by (cases ev)
      (simp_all add: handled_def heart_rate_handler_def temperature_handler_def bp_handler_def
        oxygen_handler_def read_battery_def set_data_callback_def u u2 g b
        split: sum.splits prod.splits)
  show "set (handed_out s) \<subseteq> set (handed_out (step ops s ev))"
    by (cases ev)
      (simp_all add: handled_def heart_rate_handler_def temperature_handler_def bp_handler_def
        oxygen_handler_def read_battery_def set_data_callback_def u u2 g b
        split: sum.splits prod.splits)
qed

lemma run_snoc: "run ops (evs @ [ev]) s = step ops (run ops evs s) ev"
  by (simp add: run_def)

lemma run_Nil: "run ops [] s = s"
  by (simp add: run_def)

lemma latest_Nil: "latest ops [] key = None"
  by (simp add: latest_def List.map_filter_simps)

lemma latest_snoc:
  "latest ops (evs @ [ev]) key =
     (case decoded ops ev key of None \<Rightarrow> latest ops evs key | Some v \<Rightarrow> Some v)"
  by (cases "decoded ops ev key") (simp_all add: latest_def List.map_filter_def)

lemma run_props:
  assumes "monitor_ok s"
  shows "monitor_ok (run ops evs s) \<and> health_data (run ops evs s) = health_data s
    \<and> length (heap s) \<le> length (heap (run ops evs s))
    \<and> set (handed_out s) \<subseteq> set (handed_out (run ops evs s))
    \<and> (\<forall>r. r < length (heap s) \<and> r \<noteq> health_data s \<longrightarrow> heap (run ops evs s) ! r = heap s ! r)
    \<and> (\<forall>key. store (run ops evs s) key =
          (case latest ops evs key of None \<Rightarrow> store s key | Some v \<Rightarrow> Some (Some v)))"
proof (induction evs rule: rev_induct)
  case Nil
  show ?case using assms by (simp add: run_Nil latest_Nil)
next
  case (snoc ev evs)
  let ?t = "run ops evs s"
  from snoc have t: "monitor_ok ?t" and h: "health_data ?t = health_data s"
    and l: "length (heap s) \<le> length (heap ?t)"
    and o: "set (handed_out s) \<subseteq> set (handed_out ?t)"
    and f: "\<And>r. r < length (heap s) \<Longrightarrow> r \<noteq> health_data s \<Longrightarrow> heap ?t ! r = heap s ! r"
    and k: "\<And>key. store ?t key =
          (case latest ops evs key of None \<Rightarrow> store s key | Some v \<Rightarrow> Some (Some v))"
    by simp_all
  note p = step_props [OF t, where ops = ops and ev = ev]
  have "monitor_ok (step ops ?t ev)" by (rule p)
  moreover have "health_data (step ops ?t ev) = health_data s" using p(2) h by simp
  moreover have "length (heap s) \<le> length (heap (step ops ?t ev))" using p(3) l by simp
  moreover have "set (handed_out s) \<subseteq> set (handed_out (step ops ?t ev))" using p(6) o by blast
  moreover have "heap (step ops ?t ev) ! r = heap s ! r"
    if "r < length (heap s)" "r \<noteq> health_data s" for r
  proof -
    have "heap (step ops ?t ev) ! r = heap ?t ! r" using that l h by (intro p(5)) simp_all
    then show ?thesis using f [OF that] by simp
  qed
  moreover have "store (step ops ?t ev) key =
          (case latest ops (evs @ [ev]) key of None \<Rightarrow> store s key | Some v \<Rightarrow> Some (Some v))" for key
    unfolding p(4) latest_snoc k by (simp split: option.splits)
  ultimately show ?case unfolding run_snoc by blast
qed

lemma store_init: "key \<in> set health_fields \<Longrightarrow> store init key = Some None"
  by (auto simp: health_fields_def store_def init_def init_health_data_def)

text \<open>
  C3. After every sequence of calls (notifications whose decode succeeds or fails,
  battery reads, callback registrations, snapshot requests) on a new monitor, each field
  of the dict that \<^verbatim>\<open>get_current_data\<close> returns holds the value of the most recent
  successful decode for that field, and \<^verbatim>\<open>None\<close> when there was none. One more call
  changes a field only when its decode succeeds for that field: a decode that fails
  leaves the field as it was.
\<close>

theorem snapshot_latest:
  "(key \<in> set health_fields \<longrightarrow>
      (case get_current_data (run ops evs init) of (r, s) \<Rightarrow> (heap s ! r) key = Some (latest ops evs key)))
   \<and> (let s = run ops evs init
      in store (step ops s ev) key =
           (case decoded ops ev key of None \<Rightarrow> store s key | Some v \<Rightarrow> Some (Some v)))"
proof -
  let ?s = "run ops evs init"
  note r = run_props [OF monitor_ok_init, where ops = ops and evs = evs]
  from r have w: "monitor_ok ?s" by simp
  have 1: "(case get_current_data ?s of (r, s) \<Rightarrow> (heap s ! r) key = Some (latest ops evs key))"
    if "key \<in> set health_fields"
  proof -
    have "heap (snd (get_current_data ?s)) ! fst (get_current_data ?s) = store ?s"
      using w by (rule get_current_data_props)
    moreover have "store ?s key =
        (case latest ops evs key of None \<Rightarrow> store init key | Some v \<Rightarrow> Some (Some v))"
      using r by simp
    then have "store ?s key = Some (latest ops evs key)"
      by (simp add: store_init [OF that] split: option.splits)
    ultimately show ?thesis by (simp add: case_prod_beta)
  qed
  have 2: "store (step ops ?s ev) key =
           (case decoded ops ev key of None \<Rightarrow> store ?s key | Some v \<Rightarrow> Some (Some v))"
    using w by (rule step_props)
  from 1 2 show ?thesis by (simp add: Let_def)
qed

lemma example_latest_heart_rate: "latest expr_ops example_events ''heart_rate'' = Some (PyInt 100)"
  by code_simp

lemma example_latest_temperature: "latest expr_ops example_events ''temperature'' = None"
  by code_simp

lemma heart_rate_field: "''heart_rate'' \<in> set health_fields"
  by (simp add: health_fields_def)

lemma example_failed_decode: "decoded expr_ops (HeartRate [0]) ''heart_rate'' = None"
  by code_simp

theorem snapshot_latest_witness:
  "''heart_rate'' \<in> set health_fields
   \<and> latest expr_ops example_events ''heart_rate'' = Some (PyInt 100)
   \<and> (case get_current_data (run expr_ops example_events init) of
         (r, s) \<Rightarrow> (heap s ! r) ''heart_rate'' = Some (Some (PyInt 100)))
   \<and> decoded expr_ops (HeartRate [0]) ''heart_rate'' = None
   \<and> store (step expr_ops (run expr_ops example_events init) (HeartRate [0])) ''heart_rate''
       = store (run expr_ops example_events init) ''heart_rate''"
  using snapshot_latest [of "''heart_rate''" expr_ops example_events "HeartRate [0]"] example_latest_heart_rate heart_rate_field example_failed_decode
  by (simp add: Let_def)

text \<open>
  C8. Every reference that has left the monitor after any sequence of calls is not the
  reference \<^verbatim>\<open>health_data\<close>, and the dict it refers to is the same after every further
  sequence of calls. The dict that \<^verbatim>\<open>get_current_data\<close> returns, and the dict that
  \<^verbatim>\<open>_notify_data_update\<close> passes to a registered callback, is a new dict equal to the
  vitals at that moment, and stays so.
\<close>

theorem snapshots_are_copies:
  "let s1 = run ops evs1 init in
     (\<forall>r \<in> set (handed_out s1). r \<noteq> health_data s1 \<and> heap (run ops evs2 s1) ! r = heap s1 ! r)
   \<and> (case get_current_data s1 of (r, s2) \<Rightarrow>
         heap s2 ! r = store s1 \<and> r \<noteq> health_data s2 \<and> heap (run ops evs2 s2) ! r = store s1)
   \<and> (data_callback s1 \<noteq> None \<longrightarrow>
        (let s2 = notify_data_update s1; r = last (handed_out s2)
         in heap s2 ! r = store s1 \<and> r \<noteq> health_data s2 \<and> heap (run ops evs2 s2) ! r = store s1))"
proof -
  define s1 where "s1 = run ops evs1 init"
  have w: "monitor_ok s1" unfolding s1_def using run_props [OF monitor_ok_init, where ops = ops and evs = evs1] by simp
  have fr: "heap (run ops evs2 s) ! r = heap s ! r" if "monitor_ok s" "r \<in> set (handed_out s)" for s and r
  proof -
    from that have "r < length (heap s)" "r \<noteq> health_data s" by (auto simp: monitor_ok_def list_all_iff)
    then show ?thesis using run_props [OF that(1), where ops = ops and evs = evs2] by simp
  qed
  have 1: "\<forall>r \<in> set (handed_out s1). r \<noteq> health_data s1 \<and> heap (run ops evs2 s1) ! r = heap s1 ! r"
    using w fr [OF w] by (auto simp: monitor_ok_def list_all_iff)
  have 2: "case get_current_data s1 of (r, s2) \<Rightarrow>
         heap s2 ! r = store s1 \<and> r \<noteq> health_data s2 \<and> heap (run ops evs2 s2) ! r = store s1"
  proof -
    note g = get_current_data_props [OF w]
    have "heap (run ops evs2 (snd (get_current_data s1))) ! fst (get_current_data s1)
            = heap (snd (get_current_data s1)) ! fst (get_current_data s1)"
      using g(1) g(7) by (rule fr)
    then show ?thesis using g(2,8,9) by (simp add: case_prod_beta)
  qed
  have 3: "let s2 = notify_data_update s1; r = last (handed_out s2)
         in heap s2 ! r = store s1 \<and> r \<noteq> health_data s2 \<and> heap (run ops evs2 s2) ! r = store s1"
    if "data_callback s1 \<noteq> None"
  proof -
    define s2 where "s2 = notify_data_update s1"
    have w2: "monitor_ok s2" unfolding s2_def using w by (rule notify_props)
    from that have l: "last (handed_out s2) = length (heap s1)" "handed_out s2 \<noteq> []"
      and c: "heap s2 ! length (heap s1) = store s1"
      by (auto simp: s2_def notify_data_update_def dict_copy_def store_def)
    have m: "last (handed_out s2) \<in> set (handed_out s2)" using l(2) by simp
    have "heap (run ops evs2 s2) ! last (handed_out s2) = heap s2 ! last (handed_out s2)"
      using w2 m by (rule fr)
    moreover have "last (handed_out s2) \<noteq> health_data s2"
      using w2 m by (auto simp: monitor_ok_def list_all_iff)
    ultimately show ?thesis using l c by (simp add: s2_def Let_def)
  qed
  from 1 2 3 show ?thesis unfolding s1_def [symmetric] Let_def by blast
qed

lemma example_handed_out: "handed_out (run expr_ops example_events init) = [1, 2, 3]"
  by code_simp

lemma example_snapshot_heart_rate: "(heap (run expr_ops example_events init) ! 1) ''heart_rate'' = Some (Some (PyInt 100))"
  by code_simp

lemma example_snapshot_oxygen: "(heap (run expr_ops example_events init) ! 1) ''oxygen_saturation'' = Some None"
  by code_simp

lemma example_store_heart_rate: "store (run expr_ops [HeartRate [0, 72], Oxygen [0, 95]] (run expr_ops example_events init)) ''heart_rate'' = Some (Some (PyInt 72))"
  by code_simp

theorem snapshots_are_copies_witness:
  "handed_out (run expr_ops example_events init) = [1, 2, 3]
   \<and> (heap (run expr_ops [HeartRate [0, 72], Oxygen [0, 95]] (run expr_ops example_events init)) ! 1) ''heart_rate''
        = Some (Some (PyInt 100))
   \<and> (heap (run expr_ops [HeartRate [0, 72], Oxygen [0, 95]] (run expr_ops example_events init)) ! 1) ''oxygen_saturation''
        = Some None
   \<and> store (run expr_ops [HeartRate [0, 72], Oxygen [0, 95]] (run expr_ops example_events init)) ''heart_rate''
        = Some (Some (PyInt 72))"
  using snapshots_are_copies [of expr_ops example_events "[HeartRate [0, 72], Oxygen [0, 95]]"] example_handed_out example_snapshot_heart_rate example_snapshot_oxygen example_store_heart_rate
  by (simp add: Let_def)

section \<open>Disconnecting\<close>

text \<open>
  C7. \<^verbatim>\<open>disconnect\<close> on a monitor that never connected returns without error and changes
  nothing; such a monitor is not connected. Whenever the BLE library's own disconnect
  returns, \<^verbatim>\<open>disconnect\<close> returns without error. After a call that returned, on a monitor
  whose \<^verbatim>\<open>is_connected\<close> is set only with a client (line 65 follows line 62, and the
  client is never reset), the monitor is not connected, and a second call returns
  without error, whatever the BLE library would do, and leaves the monitor as the first
  call left it.
\<close>

theorem disconnect_idempotent:
  "disconnect ok (init :: 'f monitor) = Inr init \<and> \<not> is_connected (init :: 'f monitor)
   \<and> (\<exists>s1. disconnect True s = Inr s1)
   \<and> ((is_connected (s :: 'f monitor) \<longrightarrow> client s \<noteq> None) \<and> disconnect ok1 s = Inr s1
        \<longrightarrow> \<not> is_connected s1 \<and> disconnect ok2 s1 = Inr s1)"
  by (auto simp: disconnect_def init_def split: if_splits)

theorem disconnect_idempotent_witness:
  "is_connected connected \<and> client connected \<noteq> None
   \<and> disconnect True connected = Inr (connected\<lparr>is_connected := False\<rparr>)
   \<and> \<not> is_connected (connected\<lparr>is_connected := False\<rparr>)
   \<and> disconnect False (connected\<lparr>is_connected := False\<rparr>) = Inr (connected\<lparr>is_connected := False\<rparr>)
   \<and> disconnect False (init :: float_expr monitor) = Inr init"
proof -
  have c: "is_connected connected" "client connected \<noteq> None"
    by (simp_all add: connected_def init_def)
  have d: "disconnect True connected = Inr (connected\<lparr>is_connected := False\<rparr>)"
    using c by (simp add: disconnect_def)
  show ?thesis
    using disconnect_idempotent [of False connected True "connected\<lparr>is_connected := False\<rparr>" False] c d
    by simp
qed

section \<open>Scanning\<close>

lemma map_eq_append3:
  assumes "map f xs = ps @ k @ ss"
  shows "\<exists>pre mid post. xs = pre @ mid @ post \<and> map f mid = k"
proof (intro exI conjI)
  let ?a = "length ps" and ?b = "length k"
  have "take ?b (drop ?a xs) @ drop ?b (drop ?a xs) = drop ?a xs" by (rule append_take_drop_id)
  then have "take ?a xs @ take ?b (drop ?a xs) @ drop ?b (drop ?a xs) = take ?a xs @ drop ?a xs"
    by (simp only:)
  then show "xs = take ?a xs @ take ?b (drop ?a xs) @ drop ?b (drop ?a xs)"
    by (simp only: append_take_drop_id)
  have "map f (take ?b (drop ?a xs)) = take ?b (drop ?a (map f xs))"
    by (simp add: take_map drop_map)
  also have "\<dots> = k" unfolding assms by simp
  finally show "map f (take ?b (drop ?a xs)) = k" .
qed

lemma sublist_py_lower: "sublist (py_lower k) (py_lower n) \<longleftrightarrow> contains_ci n k"
proof
  assume "sublist (py_lower k) (py_lower n)"
  then obtain ps ss where "map lower_char n = ps @ map lower_char k @ ss"
    unfolding sublist_def py_lower_def by blast
  from map_eq_append3 [OF this] show "contains_ci n k"
    unfolding contains_ci_def py_lower_def .
next
  assume "contains_ci n k"
  then obtain pre mid post where "n = pre @ mid @ post" "py_lower mid = py_lower k"
    unfolding contains_ci_def by blast
  then have "py_lower n = py_lower pre @ py_lower k @ py_lower post" by (auto simp: py_lower_def)
  then show "sublist (py_lower k) (py_lower n)" unfolding sublist_def by blast
qed

lemma health_keywords_lower_case: "list_all (\<lambda>k. py_lower k = k \<and> k \<noteq> []) health_keywords"
  by code_simp

lemma health_keywords_lower: "k \<in> set health_keywords \<Longrightarrow> py_lower k = k"
  using health_keywords_lower_case by (simp add: list_all_iff)

lemma health_keywords_nonempty: "k \<in> set health_keywords \<Longrightarrow> k \<noteq> []"
  using health_keywords_lower_case by (simp add: list_all_iff)

lemma contains_ci_Nil: "contains_ci [] k \<longleftrightarrow> k = []"
  by (auto simp: contains_ci_def py_lower_def)

lemma is_health_device_iff: "is_health_device device \<longleftrightarrow> name_matches device"
proof (cases "name device")
  case None
  then show ?thesis by (simp add: is_health_device_def name_matches_def)
next
  case (Some n)
  show ?thesis
  proof (cases "n = []")
    case True
    with Some show ?thesis
      using health_keywords_nonempty
      by (auto simp: is_health_device_def name_matches_def contains_ci_Nil)
  next
    case False
    have "sublist k (py_lower n) \<longleftrightarrow> contains_ci n k" if "k \<in> set health_keywords" for k
      using sublist_py_lower [of k n] health_keywords_lower [OF that] by simp
    with Some False show ?thesis
      by (simp add: is_health_device_def name_matches_def list_ex_iff)
  qed
qed

lemma scan_loop_filter:
  "scan_loop devices acc = acc @ map to_entry (filter is_health_device devices)"
  by (induction devices arbitrary: acc) simp_all

lemma name_matches_entry_name:
  assumes "name_matches device"
  shows "name device = Some (entry_name (to_entry device))"
proof -
  from assms obtain n k where n: "name device = Some n" and k: "k \<in> set health_keywords" "contains_ci n k"
    by (auto simp: name_matches_def)
  have "n \<noteq> []" using k health_keywords_nonempty [of k] by (auto simp: contains_ci_Nil)
  with n show ?thesis by (simp add: to_entry_def)
qed

text \<open>
  C6. For every list of discovered advertisements \<^verbatim>\<open>scan_devices\<close> returns, in discovery
  order, the entries of exactly the advertisements whose name is present and contains a
  keyword case-insensitively, each with the address, the name and the signal strength
  of its advertisement; when none matches, the result is the empty list. The function
  is total: the filter raises nothing.
\<close>

theorem scan_devices_spec:
  "scan_devices devices = map to_entry (filter name_matches devices)
   \<and> (\<forall>d \<in> set devices. name_matches d \<longrightarrow>
         name d = Some (entry_name (to_entry d)) \<and> entry_address (to_entry d) = address d
         \<and> entry_rssi (to_entry d) = rssi d)
   \<and> ((\<forall>d \<in> set devices. \<not> name_matches d) \<longrightarrow> scan_devices devices = [])"
proof -
  have e: "is_health_device = name_matches" by (rule ext) (rule is_health_device_iff)
  have 1: "scan_devices devices = map to_entry (filter name_matches devices)"
    by (simp add: scan_devices_def scan_loop_filter e)
  have 2: "\<forall>d \<in> set devices. name_matches d \<longrightarrow>
         name d = Some (entry_name (to_entry d)) \<and> entry_address (to_entry d) = address d
         \<and> entry_rssi (to_entry d) = rssi d"
    by (auto simp: name_matches_entry_name) (simp_all add: to_entry_def)
  have 3: "(\<forall>d \<in> set devices. \<not> name_matches d) \<longrightarrow> scan_devices devices = []"
    unfolding 1 by (simp add: filter_empty_conv)
  from 1 2 3 show ?thesis by blast
qed

lemma example_devices: "is_health_device mi_band" "\<not> is_health_device unnamed_device" "\<not> is_health_device printer" "is_health_device polar_h10"
  by code_simp+

theorem scan_devices_spec_witness:
  "name_matches mi_band \<and> \<not> name_matches unnamed_device \<and> \<not> name_matches printer \<and> name_matches polar_h10
   \<and> scan_devices [mi_band, unnamed_device, printer, polar_h10] = [to_entry mi_band, to_entry polar_h10]
   \<and> entry_name (to_entry polar_h10) = ''POLAR H10''
   \<and> scan_devices [unnamed_device, printer] = []"
  using scan_devices_spec [of "[mi_band, unnamed_device, printer, polar_h10]"] scan_devices_spec [of "[unnamed_device, printer]"]
    example_devices [unfolded is_health_device_iff]
  by (simp add: polar_h10_def)

end
